theory Spec2Isabelle
  imports Complex_Main
begin

section \<open>Strings of the host language\<close>

text \<open>
  The services are TypeScript. A string there is a sequence of UTF-16 code units, and
  \<open>length\<close>, indexing, \<open>trim\<close>, \<open>split\<close> and the regular expressions used (none has
  the \<open>u\<close> flag) all work on code units. A code unit is modelled as a natural number and a
  string as a list of them; \<open>js\<close> embeds an ASCII literal.
\<close>

type_synonym jschar = nat
type_synonym jsstring = "jschar list"

definition js :: "string \<Rightarrow> jsstring" where
  "js s = map of_char s"

definition DQUOTE :: jschar where "DQUOTE = 34"
definition COMMA :: jschar where "COMMA = 44"

text \<open>
  The characters \<open>\s\<close> matches and \<open>trim\<close> strips: the language's white space and line
  terminators.
\<close>

definition isWhiteSpace :: "jschar \<Rightarrow> bool" where
  "isWhiteSpace c \<longleftrightarrow>
     c = 9 \<or> c = 10 \<or> c = 11 \<or> c = 12 \<or> c = 13 \<or> c = 32 \<or> c = 160 \<or> c = 5760 \<or>
     (8192 \<le> c \<and> c \<le> 8202) \<or> c = 8232 \<or> c = 8233 \<or> c = 8239 \<or> c = 8287 \<or>
     c = 12288 \<or> c = 65279"

definition trim :: "jsstring \<Rightarrow> jsstring" where
  "trim s = rev (dropWhile isWhiteSpace (rev (dropWhile isWhiteSpace s)))"

definition startsWith :: "jsstring \<Rightarrow> jsstring \<Rightarrow> bool" where
  "startsWith s p \<longleftrightarrow> take (length p) s = p"

definition endsWith :: "jsstring \<Rightarrow> jsstring \<Rightarrow> bool" where
  "endsWith s p \<longleftrightarrow> length p \<le> length s \<and> drop (length s - length p) s = p"

text \<open>
  \<open>s.substring(a, b)\<close>: both bounds are clamped to the length and swapped when the first
  is the larger (which happens for the one-character string \<open>"\<close> below).
\<close>

definition substring :: "nat \<Rightarrow> nat \<Rightarrow> jsstring \<Rightarrow> jsstring" where
  "substring a b s =
     (let a' = min a (length s); b' = min b (length s);
          lo = min a' b'; hi = max a' b'
      in take (hi - lo) (drop lo s))"

section \<open>Numbers and values\<close>

text \<open>
  A number of the host language is a double. \<open>Finite q\<close> stands for the double nearest
  to the rational \<open>q\<close>: the conversion of a string and a numeric literal of the program
  text both round the exact decimal value, so equal rationals are equal doubles. The
  sign of zero is not kept, and a literal too large for a double is kept as its exact
  value (the host gives an infinity, which is a number as well).
\<close>

datatype jsnumber = Finite rat | PosInfinity | NegInfinity | NaN

datatype jsvalue =
    JUndefined
  | JNull
  | JBool bool
  | JNum jsnumber
  | JStr jsstring
  | JObj "(jsstring \<times> jsvalue) list"
  | JArr "jsvalue list"

text \<open>
  \<open>JObj\<close> lists the own enumerable properties of an object in the order
  \<open>Object.keys\<close> reports them. A thrown \<open>Error\<close> carries its message.
\<close>

datatype jserror = Error jsstring

definition isNaN :: "jsnumber \<Rightarrow> bool" where
  "isNaN x \<longleftrightarrow> x = NaN"

definition isDigit :: "jschar \<Rightarrow> bool" where
  "isDigit c \<longleftrightarrow> 48 \<le> c \<and> c \<le> 57"

definition isLetter :: "jschar \<Rightarrow> bool" where
  "isLetter c \<longleftrightarrow> (65 \<le> c \<and> c \<le> 90) \<or> (97 \<le> c \<and> c \<le> 122)"

definition digitsValue :: "jsstring \<Rightarrow> nat" where
  "digitsValue ds = foldl (\<lambda>a c. 10 * a + (c - 48)) 0 ds"

text \<open>The decimal digits of a non-negative integer, as a template literal prints it.\<close>

fun showNat :: "nat \<Rightarrow> jsstring" where
  "showNat n = (if n < 10 then [48 + n] else showNat (n div 10) @ [48 + n mod 10])"

declare showNat.simps [simp del]

definition padStart :: "nat \<Rightarrow> jschar \<Rightarrow> jsstring \<Rightarrow> jsstring" where
  "padStart n c s = replicate (n - length s) c @ s"

subsection \<open>\<open>Number(string)\<close>\<close>

text \<open>
  The conversion of the language: surrounding white space is dropped, the empty string
  is 0, then a hexadecimal, octal or binary integer, or an optionally signed decimal
  literal (\<open>Infinity\<close>, digits with an optional fraction and exponent); anything else
  is \<open>NaN\<close>.
\<close>

definition negate :: "jsnumber \<Rightarrow> jsnumber" where
  "negate x = (case x of Finite q \<Rightarrow> Finite (- q) | PosInfinity \<Rightarrow> NegInfinity
                | NegInfinity \<Rightarrow> PosInfinity | NaN \<Rightarrow> NaN)"

definition parseExponent :: "jsstring \<Rightarrow> int option" where
  "parseExponent e =
     (case e of
        [] \<Rightarrow> None
      | c # ds \<Rightarrow>
          if c = 43 then
            (if ds \<noteq> [] \<and> list_all isDigit ds then Some (int (digitsValue ds)) else None)
          else if c = 45 then
            (if ds \<noteq> [] \<and> list_all isDigit ds then Some (- int (digitsValue ds)) else None)
          else if list_all isDigit e then Some (int (digitsValue e)) else None)"

definition parseMantissa :: "jsstring \<Rightarrow> rat option" where
  "parseMantissa m =
     (let ip = takeWhile isDigit m; rest = dropWhile isDigit m
      in if rest = [] then (if ip = [] then None else Some (of_nat (digitsValue ip)))
         else if hd rest = 46 \<and> list_all isDigit (tl rest) \<and> (ip \<noteq> [] \<or> tl rest \<noteq> [])
         then Some (of_nat (digitsValue (ip @ tl rest)) / 10 ^ length (tl rest))
         else None)"

definition scale10 :: "rat \<Rightarrow> int \<Rightarrow> rat" where
  "scale10 v e = (if 0 \<le> e then v * 10 ^ nat e else v / 10 ^ nat (- e))"

definition parseUnsignedDecimal :: "jsstring \<Rightarrow> jsnumber" where
  "parseUnsignedDecimal s =
     (if s = js ''Infinity'' then PosInfinity
      else
        let m = takeWhile (\<lambda>c. c \<noteq> 101 \<and> c \<noteq> 69) s;
            r = dropWhile (\<lambda>c. c \<noteq> 101 \<and> c \<noteq> 69) s
        in case parseMantissa m of
             None \<Rightarrow> NaN
           | Some v \<Rightarrow>
               if r = [] then Finite v
               else (case parseExponent (tl r) of
                       None \<Rightarrow> NaN
                     | Some e \<Rightarrow> Finite (scale10 v e)))"

definition radixDigit :: "jschar \<Rightarrow> nat option" where
  "radixDigit c =
     (if 48 \<le> c \<and> c \<le> 57 then Some (c - 48)
      else if 97 \<le> c \<and> c \<le> 102 then Some (c - 87)
      else if 65 \<le> c \<and> c \<le> 70 then Some (c - 55)
      else None)"

definition parseRadix :: "nat \<Rightarrow> jsstring \<Rightarrow> jsnumber" where
  "parseRadix b ds =
     (if ds \<noteq> [] \<and> list_all (\<lambda>c. case radixDigit c of None \<Rightarrow> False | Some d \<Rightarrow> d < b) ds
      then Finite (of_nat (foldl (\<lambda>a c. b * a + (case radixDigit c of Some d \<Rightarrow> d | None \<Rightarrow> 0)) 0 ds))
      else NaN)"

definition Number :: "jsstring \<Rightarrow> jsnumber" where
  "Number s =
     (let t = trim s
      in if t = [] then Finite 0
         else if take 2 t = js ''0x'' \<or> take 2 t = js ''0X'' then parseRadix 16 (drop 2 t)
         else if take 2 t = js ''0o'' \<or> take 2 t = js ''0O'' then parseRadix 8 (drop 2 t)
         else if take 2 t = js ''0b'' \<or> take 2 t = js ''0B'' then parseRadix 2 (drop 2 t)
         else if hd t = 43 then parseUnsignedDecimal (tl t)
         else if hd t = 45 then negate (parseUnsignedDecimal (tl t))
         else parseUnsignedDecimal t)"

section \<open>Dates\<close>

text \<open>
  A date of the host is a time value: milliseconds since 1970-01-01T00:00:00Z, at most
  \<open>maxTime\<close> in absolute value, or \<open>NaN\<close> (an invalid date, \<open>None\<close> here). The calendar
  functions are the language's: \<open>YearFromTime t\<close> is the largest year whose first day
  is not after \<open>t\<close>. It is computed by a search from an estimate, down and then up.
\<close>

definition msPerDay :: int where "msPerDay = 86400000"
definition maxTime :: int where "maxTime = 8640000000000000"

definition Day :: "int \<Rightarrow> int" where
  "Day t = t div msPerDay"

definition DaysInYear :: "int \<Rightarrow> int" where
  "DaysInYear y =
     (if y mod 4 \<noteq> 0 then 365 else if y mod 100 \<noteq> 0 then 366
      else if y mod 400 \<noteq> 0 then 365 else 366)"

definition DayFromYear :: "int \<Rightarrow> int" where
  "DayFromYear y =
     365 * (y - 1970) + (y - 1969) div 4 - (y - 1901) div 100 + (y - 1601) div 400"

lemma div_step_lower: "(0::int) < k \<Longrightarrow> z div k \<le> (z + 1) div k"
  by (rule zdiv_mono1) simp_all

lemma div_step_upper: "(0::int) < k \<Longrightarrow> (z + 1) div k \<le> z div k + 1"
proof -
  assume k: "0 < k"
  have "(z + 1) div k \<le> (z + k) div k" using k by (intro zdiv_mono1) simp_all
  also have "\<dots> = z div k + 1" using k by simp
  finally show ?thesis .
qed

lemma year_step_linear:
  "p \<le> p' \<Longrightarrow> q' \<le> q + 1 \<Longrightarrow> r \<le> r' \<Longrightarrow>
   365 * (y - 1970) + p - q + r < 365 * (y + 1 - 1970) + p' - q' + (r'::int)"
  by (simp add: algebra_simps)

lemma DayFromYear_step: "DayFromYear y < DayFromYear (y + 1)"
proof -
  have a: "(y - 1969) div 4 \<le> (y - 1969 + 1) div 4" by (rule div_step_lower) simp
  have b: "(y - 1901 + 1) div 100 \<le> (y - 1901) div 100 + 1" by (rule div_step_upper) simp
  have c: "(y - 1601) div 400 \<le> (y - 1601 + 1) div 400" by (rule div_step_lower) simp
  have e: "y + 1 - 1969 = y - 1969 + 1" "y + 1 - 1901 = y - 1901 + 1"
    "y + 1 - 1601 = y - 1601 + 1" by simp_all
  show ?thesis unfolding DayFromYear_def e by (rule year_step_linear [OF a b c])
qed

function yearDown :: "int \<Rightarrow> int \<Rightarrow> int" where
  "yearDown d y = (if d < DayFromYear y then yearDown d (y - 1) else y)"
  by pat_completeness auto
termination
proof (relation "measure (\<lambda>(d, y). nat (DayFromYear y - d))")
  show "wf (measure (\<lambda>(d, y). nat (DayFromYear y - d)))" by simp
next
  fix d y :: int
  assume "d < DayFromYear y"
  moreover have "DayFromYear (y - 1) < DayFromYear y" using DayFromYear_step [of "y - 1"] by simp
  ultimately show "((d, y - 1), (d, y)) \<in> measure (\<lambda>(d, y). nat (DayFromYear y - d))" by simp
qed

function yearUp :: "int \<Rightarrow> int \<Rightarrow> int" where
  "yearUp d y = (if DayFromYear (y + 1) \<le> d then yearUp d (y + 1) else y)"
  by pat_completeness auto
termination
proof (relation "measure (\<lambda>(d, y). nat (d - DayFromYear y))")
  show "wf (measure (\<lambda>(d, y). nat (d - DayFromYear y)))" by simp
next
  fix d y :: int
  assume "DayFromYear (y + 1) \<le> d"
  moreover have "DayFromYear y < DayFromYear (y + 1)" using DayFromYear_step [of y] by simp
  ultimately show "((d, y + 1), (d, y)) \<in> measure (\<lambda>(d, y). nat (d - DayFromYear y))" by simp
qed

declare yearDown.simps [simp del] yearUp.simps [simp del]

definition YearFromDay :: "int \<Rightarrow> int" where
  "YearFromDay d = yearUp d (yearDown d (1970 + d div 365))"

definition YearFromTime :: "int \<Rightarrow> int" where
  "YearFromTime t = YearFromDay (Day t)"

definition InLeapYear :: "int \<Rightarrow> int" where
  "InLeapYear t = (if DaysInYear (YearFromTime t) = 366 then 1 else 0)"

definition DayWithinYear :: "int \<Rightarrow> int" where
  "DayWithinYear t = Day t - DayFromYear (YearFromTime t)"

definition MonthFromTime :: "int \<Rightarrow> int" where
  "MonthFromTime t =
     (let d = DayWithinYear t; l = InLeapYear t
      in if d < 31 then 0 else if d < 59 + l then 1 else if d < 90 + l then 2
         else if d < 120 + l then 3 else if d < 151 + l then 4 else if d < 181 + l then 5
         else if d < 212 + l then 6 else if d < 243 + l then 7 else if d < 273 + l then 8
         else if d < 304 + l then 9 else if d < 334 + l then 10 else 11)"

definition DateFromTime :: "int \<Rightarrow> int" where
  "DateFromTime t =
     (let d = DayWithinYear t; l = InLeapYear t; m = MonthFromTime t
      in if m = 0 then d + 1 else if m = 1 then d - 30 else if m = 2 then d - 58 - l
         else if m = 3 then d - 89 - l else if m = 4 then d - 119 - l
         else if m = 5 then d - 150 - l else if m = 6 then d - 180 - l
         else if m = 7 then d - 211 - l else if m = 8 then d - 242 - l
         else if m = 9 then d - 272 - l else if m = 10 then d - 303 - l else d - 333 - l)"

text \<open>
  The part of \<open>toISOString()\<close> before the \<open>T\<close>: the year on four digits, or signed on
  six outside 0..9999, then the month and the day on two digits each.
\<close>

definition yearString :: "int \<Rightarrow> jsstring" where
  "yearString y =
     (if 0 \<le> y \<and> y \<le> 9999 then padStart 4 48 (showNat (nat y))
      else (if y < 0 then [45] else [43]) @ padStart 6 48 (showNat (nat \<bar>y\<bar>)))"

definition toISODate :: "int \<Rightarrow> jsstring" where
  "toISODate t =
     yearString (YearFromTime t) @ [45] @ padStart 2 48 (showNat (nat (MonthFromTime t + 1)))
       @ [45] @ padStart 2 48 (showNat (nat (DateFromTime t)))"

text \<open>
  \<open>new Date(string)\<close>. How the host reads a string that is not in the ISO format (which
  formats it accepts, and in which time zone) is left to the host by the language, so
  the reading is a parameter \<open>dateParse\<close> of everything that builds a date from a
  string: \<open>dateParse s\<close> is the time value, or \<open>None\<close> for an invalid date.
\<close>

definition newDate :: "(jsstring \<Rightarrow> int option) \<Rightarrow> jsstring \<Rightarrow> int option" where
  "newDate dateParse s =
     (case dateParse s of
        None \<Rightarrow> None
      | Some t \<Rightarrow> if \<bar>t\<bar> \<le> maxTime then Some t else None)"

section \<open>The line tokenizer\<close>

text \<open>
  \<open>parseCSVLine\<close> scans the line once. The loop state is the list of finished fields,
  the field being built and the in-quotes flag; \<open>scanLine\<close> is the loop over the
  remaining characters, ending with the push of the last field.
\<close>

fun scanLine :: "jsstring \<Rightarrow> jsstring list \<Rightarrow> jsstring \<Rightarrow> bool \<Rightarrow> jsstring list" where
  "scanLine [] values current inQuotes = values @ [current]"
| "scanLine (char # rest) values current inQuotes =
     (if char = DQUOTE then scanLine rest values current (\<not> inQuotes)
      else if char = COMMA \<and> \<not> inQuotes then scanLine rest (values @ [current]) [] inQuotes
      else scanLine rest values (current @ [char]) inQuotes)"

text \<open>\<open>.replace(/""/g, '"')\<close>: leftmost, non-overlapping pairs of quotes become one quote.\<close>

fun unescapeQuotes :: "jsstring \<Rightarrow> jsstring" where
  "unescapeQuotes (c # d # rest) =
     (if c = DQUOTE \<and> d = DQUOTE then DQUOTE # unescapeQuotes rest
      else c # unescapeQuotes (d # rest))"
| "unescapeQuotes s = s"

definition unquoteField :: "jsstring \<Rightarrow> jsstring" where
  "unquoteField v =
     (let trimmed = trim v
      in if startsWith trimmed [DQUOTE] \<and> endsWith trimmed [DQUOTE]
         then unescapeQuotes (substring 1 (length trimmed - 1) trimmed)
         else v)"

definition parseCSVLine :: "jsstring \<Rightarrow> jsstring list" where
  "parseCSVLine line = map unquoteField (scanLine line [] [] False)"

section \<open>Cell values\<close>

definition PERCENT :: jschar where "PERCENT = 37"
definition SLASH :: jschar where "SLASH = 47"
definition HYPHEN :: jschar where "HYPHEN = 45"
definition UNDERSCORE :: jschar where "UNDERSCORE = 95"
definition NEWLINE :: jschar where "NEWLINE = 10"
definition CR :: jschar where "CR = 13"
definition BOM :: jschar where "BOM = 65279"

text \<open>\<open>s.split(sep)\<close> for a one-character separator: at least one piece.\<close>

fun splitLoop :: "jschar \<Rightarrow> jsstring \<Rightarrow> jsstring \<Rightarrow> jsstring list" where
  "splitLoop sep current [] = [current]"
| "splitLoop sep current (c # cs) =
     (if c = sep then current # splitLoop sep [] cs
      else splitLoop sep (current @ [c]) cs)"

definition splitOn :: "jschar \<Rightarrow> jsstring \<Rightarrow> jsstring list" where
  "splitOn sep s = splitLoop sep [] s"

definition startsWithDigit :: "jsstring \<Rightarrow> bool" where
  "startsWithDigit s \<longleftrightarrow> s \<noteq> [] \<and> isDigit (hd s)"

definition startsWith6to9 :: "jsstring \<Rightarrow> bool" where
  "startsWith6to9 s \<longleftrightarrow> s \<noteq> [] \<and> 54 \<le> hd s \<and> hd s \<le> 57"

text \<open>
  The two date patterns, \<open>/^(\d{1,2})-([A-Za-z]{3})-(\d{2,4})$/\<close> and
  \<open>/^\d{1,2}\/\d{1,2}\/\d{4}$/\<close>. Neither digits nor letters contain the separator, so
  a string matches exactly when the separator cuts it into three pieces of the right
  classes and lengths.
\<close>

definition matchesDayMonYear :: "jsstring \<Rightarrow> bool" where
  "matchesDayMonYear s =
     (case splitOn HYPHEN s of
        [d, m, y] \<Rightarrow>
          list_all isDigit d \<and> 1 \<le> length d \<and> length d \<le> 2 \<and>
          list_all isLetter m \<and> length m = 3 \<and>
          list_all isDigit y \<and> 2 \<le> length y \<and> length y \<le> 4
      | _ \<Rightarrow> False)"

definition matchesDayMonthYear :: "jsstring \<Rightarrow> bool" where
  "matchesDayMonthYear s =
     (case splitOn SLASH s of
        [d, m, y] \<Rightarrow>
          list_all isDigit d \<and> 1 \<le> length d \<and> length d \<le> 2 \<and>
          list_all isDigit m \<and> 1 \<le> length m \<and> length m \<le> 2 \<and>
          list_all isDigit y \<and> length y = 4
      | _ \<Rightarrow> False)"

text \<open>
  The body of the \<open>typeof val === 'string'\<close> branch of \<open>parseCSV\<close>: what is stored for a
  cell that the row has.
\<close>

definition parseCell :: "(jsstring \<Rightarrow> int option) \<Rightarrow> jsstring \<Rightarrow> jsvalue" where
  "parseCell dateParse raw =
     (let val = trim raw;
          numericClean = trim (hd (splitOn SLASH (filter (\<lambda>c. c \<noteq> PERCENT) val)))
      in if numericClean \<noteq> [] \<and> \<not> isNaN (Number numericClean) then
           (if length val = 10 \<and> startsWith6to9 val then JStr val
            else JNum (Number numericClean))
         else if matchesDayMonYear val then
           (case newDate dateParse val of
              Some d \<Rightarrow> JStr (toISODate d)
            | None \<Rightarrow> JStr val)
         else if matchesDayMonthYear val then
           (let parts = splitOn SLASH val
            in JStr (parts ! 2 @ [HYPHEN] @ padStart 2 48 (parts ! 1) @ [HYPHEN]
                     @ padStart 2 48 (parts ! 0)))
         else JStr val)"


section \<open>Headers\<close>

text \<open>\<open>.replace(/\s+/g, '_')\<close>: every maximal run of white space becomes one underscore.\<close>

function replaceWhitespaceRuns :: "jsstring \<Rightarrow> jsstring" where
  "replaceWhitespaceRuns [] = []"
| "replaceWhitespaceRuns (c # cs) =
     (if isWhiteSpace c then UNDERSCORE # replaceWhitespaceRuns (dropWhile isWhiteSpace cs)
      else c # replaceWhitespaceRuns cs)"
  by pat_completeness auto
termination
  by (relation "measure length") (auto simp: less_Suc_eq_le length_dropWhile_le)

text \<open>The characters \<open>/[^a-zA-Z0-9_]/\<close> does not match.\<close>

definition isIdentChar :: "jschar \<Rightarrow> bool" where
  "isIdentChar c \<longleftrightarrow> isLetter c \<or> isDigit c \<or> c = UNDERSCORE"

text \<open>
  The first half of the callback of \<open>rawHeaders.map((h, i) => ...)\<close>: the clean name of
  the header \<open>h\<close> at index \<open>i\<close>, before duplicates are told apart.
\<close>

definition sanitizeHeader :: "jsstring \<Rightarrow> nat \<Rightarrow> jsstring" where
  "sanitizeHeader h i =
     (let clean = filter isIdentChar (replaceWhitespaceRuns (trim h));
          clean = (if clean = [] then js ''col_'' @ showNat i else clean);
          clean = (if startsWithDigit clean then UNDERSCORE # clean else clean)
      in clean)"

text \<open>
  The second half: \<open>while (seenHeaders.has(uniqueName))\<close> tries \<open>clean_1\<close>, \<open>clean_2\<close>, ...
  The loop ends because the names seen are finitely many and the candidates grow in
  length without bound: a number is below ten to the count of its digits.
\<close>

lemma showNat_bound: "n < 10 ^ length (showNat n)"
proof (induction n rule: showNat.induct)
  case (1 n)
  show ?case
  proof (cases "n < 10")
    case True
    then show ?thesis by (simp add: showNat.simps)
  next
    case False
    with 1 have "n div 10 < 10 ^ length (showNat (n div 10))" by simp
    then have "n < 10 * 10 ^ length (showNat (n div 10))" by simp
    with False show ?thesis by (subst showNat.simps) simp
  qed
qed

definition candidate :: "jsstring \<Rightarrow> nat \<Rightarrow> jsstring" where
  "candidate clean counter = clean @ [UNDERSCORE] @ showNat counter"

lemma finite_candidates: "finite {k. candidate clean k \<in> set seen}"
proof -
  define M where "M = Max (length ` set seen)"
  have "{k. candidate clean k \<in> set seen} \<subseteq> {..< 10 ^ M}"
  proof
    fix k assume "k \<in> {k. candidate clean k \<in> set seen}"
    then have mem: "candidate clean k \<in> set seen" by simp
    then have "length (candidate clean k) \<le> M" unfolding M_def by (intro Max_ge) auto
    then have "length (showNat k) \<le> M" by (simp add: candidate_def)
    then have "(10::nat) ^ length (showNat k) \<le> 10 ^ M" by (intro power_increasing) simp_all
    with showNat_bound [of k] have "k < 10 ^ M" by (rule less_le_trans)
    then show "k \<in> {..< 10 ^ M}" by simp
  qed
  then show ?thesis by (rule finite_subset) simp
qed

function uniqueNameLoop :: "jsstring list \<Rightarrow> jsstring \<Rightarrow> jsstring \<Rightarrow> nat \<Rightarrow> jsstring" where
  "uniqueNameLoop seenHeaders clean uniqueName counter =
     (if uniqueName \<in> set seenHeaders
      then uniqueNameLoop seenHeaders clean (candidate clean counter) (counter + 1)
      else uniqueName)"
  by pat_completeness auto
termination
proof (relation "measure (\<lambda>(seen, clean, name, counter).
    card {k. counter \<le> k \<and> candidate clean k \<in> set seen} + (if name \<in> set seen then 1 else 0))")
  show "wf (measure (\<lambda>(seen, clean, name, counter).
    card {k. counter \<le> k \<and> candidate clean k \<in> set seen} + (if name \<in> set seen then 1 else 0)))"
    by simp
next
  fix seenHeaders :: "jsstring list" and clean uniqueName :: jsstring and counter :: nat
  assume mem: "uniqueName \<in> set seenHeaders"
  let ?A = "{k. counter \<le> k \<and> candidate clean k \<in> set seenHeaders}"
  let ?B = "{k. counter + 1 \<le> k \<and> candidate clean k \<in> set seenHeaders}"
  have finA: "finite ?A" by (rule finite_subset [OF _ finite_candidates [of clean seenHeaders]]) auto
  have finB: "finite ?B" by (rule finite_subset [OF _ finite_candidates [of clean seenHeaders]]) auto
  have "card ?B + (if candidate clean counter \<in> set seenHeaders then 1 else 0) \<le> card ?A"
  proof (cases "candidate clean counter \<in> set seenHeaders")
    case True
    then have "?A = insert counter ?B" by (auto simp: le_Suc_eq)
    moreover have "counter \<notin> ?B" by simp
    ultimately have "card ?A = Suc (card ?B)" using finB by simp
    with True show ?thesis by simp
  next
    case False
    have "?B \<subseteq> ?A" by auto
    then have "card ?B \<le> card ?A" using finA by (rule card_mono [rotated])
    with False show ?thesis by simp
  qed
  with mem show "((seenHeaders, clean, candidate clean counter, counter + 1),
      (seenHeaders, clean, uniqueName, counter)) \<in> measure (\<lambda>(seen, clean, name, counter).
    card {k. counter \<le> k \<and> candidate clean k \<in> set seen} + (if name \<in> set seen then 1 else 0))"
    by simp
qed

declare uniqueNameLoop.simps [simp del]

text \<open>
  The whole \<open>map\<close>, from index \<open>i\<close> on, with the names seen so far (\<open>seenHeaders.add\<close> puts
  each name returned among them).
\<close>

fun sanitizeHeaders :: "jsstring list \<Rightarrow> nat \<Rightarrow> jsstring list \<Rightarrow> jsstring list" where
  "sanitizeHeaders [] i seenHeaders = []"
| "sanitizeHeaders (h # hs) i seenHeaders =
     (let clean = sanitizeHeader h i;
          uniqueName = uniqueNameLoop seenHeaders clean clean 1
      in uniqueName # sanitizeHeaders hs (i + 1) (uniqueName # seenHeaders))"

text \<open>A name that is not empty and does not start with a digit.\<close>

definition properName :: "jsstring \<Rightarrow> bool" where
  "properName h \<longleftrightarrow> h \<noteq> [] \<and> \<not> isDigit (hd h)"

section \<open>Rows\<close>

text \<open>
  A row is the object \<open>parseCSV\<close> fills by \<open>obj[header] = val\<close>, starting from \<open>{}\<close>.
  What an assignment does to the own properties of such an object:
  \<^item> the key \<open>__proto__\<close> is not stored: the assignment reaches the accessor every plain
    object inherits, which creates no own property (a \<open>null\<close> value detaches the object
    from its prototype, any other cell value is ignored); only once detached does the
    object take \<open>__proto__\<close> as a key of its own;
  \<^item> a key the object has keeps its place and takes the new value;
  \<^item> a new key that is an array index goes among the index keys, by numeric order, ahead
    of all other keys; any other new key goes last.
  The state of the object is its property list and whether it still has its prototype.
\<close>

definition isArrayIndex :: "jsstring \<Rightarrow> bool" where
  "isArrayIndex k \<longleftrightarrow>
     k \<noteq> [] \<and> list_all isDigit k \<and> (k = [48] \<or> hd k \<noteq> 48) \<and> digitsValue k < 4294967295"

fun updateProp :: "jsstring \<Rightarrow> jsvalue \<Rightarrow> (jsstring \<times> jsvalue) list \<Rightarrow> (jsstring \<times> jsvalue) list" where
  "updateProp k v [] = []"
| "updateProp k v (p # ps) = (if fst p = k then (k, v) # ps else p # updateProp k v ps)"

fun insertIndexProp :: "jsstring \<Rightarrow> jsvalue \<Rightarrow> (jsstring \<times> jsvalue) list \<Rightarrow> (jsstring \<times> jsvalue) list" where
  "insertIndexProp k v [] = [(k, v)]"
| "insertIndexProp k v (p # ps) =
     (if isArrayIndex (fst p) \<and> digitsValue (fst p) < digitsValue k
      then p # insertIndexProp k v ps
      else (k, v) # p # ps)"

definition defineOwn :: "(jsstring \<times> jsvalue) list \<Rightarrow> jsstring \<Rightarrow> jsvalue \<Rightarrow> (jsstring \<times> jsvalue) list" where
  "defineOwn ps k v =
     (if k \<in> fst ` set ps then updateProp k v ps
      else if isArrayIndex k then insertIndexProp k v ps
      else ps @ [(k, v)])"

definition assignProp ::
  "(jsstring \<times> jsvalue) list \<times> bool \<Rightarrow> jsstring \<Rightarrow> jsvalue \<Rightarrow> (jsstring \<times> jsvalue) list \<times> bool" where
  "assignProp obj k v =
     (case obj of (ps, hasPrototype) \<Rightarrow>
        if k = js ''__proto__'' \<and> hasPrototype then (ps, v \<noteq> JNull)
        else (defineOwn ps k v, hasPrototype))"

text \<open>
  \<open>headers.forEach((header, index) => ...)\<close> on one line's values: a value the row does
  not have (\<open>values[index]\<close> is \<open>undefined\<close>) is stored as \<open>null\<close>.
\<close>

definition cellAt :: "(jsstring \<Rightarrow> int option) \<Rightarrow> jsstring list \<Rightarrow> nat \<Rightarrow> jsvalue" where
  "cellAt dateParse values index =
     (if index < length values then parseCell dateParse (values ! index) else JNull)"

definition buildRow :: "(jsstring \<Rightarrow> int option) \<Rightarrow> jsstring list \<Rightarrow> jsstring list \<Rightarrow> jsvalue" where
  "buildRow dateParse headers values =
     JObj (fst (foldl (\<lambda>obj (header, index). assignProp obj header (cellAt dateParse values index))
                  ([], True) (zip headers [0 ..< length headers])))"

section \<open>\<open>parseCSV\<close>\<close>

fun replaceCRLF :: "jsstring \<Rightarrow> jsstring" where
  "replaceCRLF (c # d # rest) =
     (if c = CR \<and> d = NEWLINE then NEWLINE # replaceCRLF rest else c # replaceCRLF (d # rest))"
| "replaceCRLF s = s"

definition replaceCR :: "jsstring \<Rightarrow> jsstring" where
  "replaceCR s = map (\<lambda>c. if c = CR then NEWLINE else c) s"

text \<open>The loop over the data lines, \<open>lines[1]\<close> onwards.\<close>

fun parseRows :: "(jsstring \<Rightarrow> int option) \<Rightarrow> jsstring list \<Rightarrow> jsstring list \<Rightarrow> jsvalue list" where
  "parseRows dateParse headers [] = []"
| "parseRows dateParse headers (currentLine # rest) =
     (if trim currentLine = [] then parseRows dateParse headers rest
      else
        let values = parseCSVLine currentLine
        in if length values = 1 \<and> values ! 0 = [] then parseRows dateParse headers rest
           else buildRow dateParse headers values # parseRows dateParse headers rest)"

definition csvLines :: "jsstring \<Rightarrow> jsstring list" where
  "csvLines text =
     filter (\<lambda>l. trim l \<noteq> []) (splitOn NEWLINE (replaceCR (replaceCRLF text)))"

definition csvHeaders :: "jsstring \<Rightarrow> jsstring list" where
  "csvHeaders text = sanitizeHeaders (parseCSVLine (hd (csvLines text))) 0 []"

definition parseCSV :: "(jsstring \<Rightarrow> int option) \<Rightarrow> jsstring \<Rightarrow> jsvalue list" where
  "parseCSV dateParse text =
     (let lines = csvLines text
      in if length lines < 2 then []
         else parseRows dateParse (csvHeaders text) (tl lines))"

text \<open>
  \<open>Object.keys\<close>. It throws on \<open>null\<close> and \<open>undefined\<close>; it is only applied to rows, which
  are objects (\<open>parseCSV\<close> builds them, \<open>executeSQL\<close> wraps whatever is not one).
\<close>

definition objectKeys :: "jsvalue \<Rightarrow> jsstring list" where
  "objectKeys v =
     (case v of
        JObj ps \<Rightarrow> map fst ps
      | JArr xs \<Rightarrow> map showNat [0 ..< length xs]
      | JStr s \<Rightarrow> map showNat [0 ..< length s]
      | _ \<Rightarrow> [])"

section \<open>The SQL engine and the services on it\<close>

text \<open>
  Modelled from the spec: the SQL engine (AlaSQL, loaded by the page from a CDN) is not
  part of the repository. The services use a registry of tables by name, each with its
  rows; \<open>DROP TABLE IF EXISTS n\<close>, which removes \<open>n\<close> if it is there; \<open>CREATE TABLE n\<close>,
  which registers \<open>n\<close> with no rows and fails when \<open>n\<close> is registered; and
  \<open>SELECT * INTO n FROM ?\<close>, which adds rows to \<open>n\<close>. The engine may refuse a statement
  (a name it cannot parse): \<open>refuses\<close>. Its answer to an arbitrary statement is
  \<open>answer\<close>, a value or a thrown error; \<open>calcAge\<close> tells whether \<open>fn.CALC_AGE\<close> is set.
\<close>

record alasql =
  tables :: "jsstring \<rightharpoonup> jsvalue list"
  refuses :: "jsstring \<Rightarrow> bool"
  answer :: "jsstring \<Rightarrow> jserror + jsvalue"
  calcAge :: bool

definition dropTableIfExists :: "jsstring \<Rightarrow> alasql \<Rightarrow> jserror + alasql" where
  "dropTableIfExists n db =
     (if refuses db n then Inl (Error (js ''Parse error''))
      else Inr (db\<lparr>tables := (tables db)(n := None)\<rparr>))"

definition createTable :: "jsstring \<Rightarrow> alasql \<Rightarrow> jserror + alasql" where
  "createTable n db =
     (if refuses db n then Inl (Error (js ''Parse error''))
      else if tables db n \<noteq> None then Inl (Error (js ''Table already exists''))
      else Inr (db\<lparr>tables := (tables db)(n \<mapsto> [])\<rparr>))"

definition selectInto :: "jsstring \<Rightarrow> jsvalue list \<Rightarrow> alasql \<Rightarrow> jserror + alasql" where
  "selectInto n rows db =
     (if refuses db n then Inl (Error (js ''Parse error''))
      else case tables db n of
             None \<Rightarrow> Inl (Error (js ''Table does not exist''))
           | Some old \<Rightarrow> Inr (db\<lparr>tables := (tables db)(n \<mapsto> old @ rows)\<rparr>))"

text \<open>
  \<open>getDb\<close>: \<open>window.alasql\<close> is the engine or is missing. The first call sets
  \<open>fn.CALC_AGE\<close>; without an engine it throws.
\<close>

definition getDb :: "alasql option \<Rightarrow> jserror + alasql" where
  "getDb window =
     (case window of
        None \<Rightarrow> Inl (Error (js ''Database engine not initialized''))
      | Some db \<Rightarrow> Inr (db\<lparr>calcAge := True\<rparr>))"

subsection \<open>\<open>CALC_AGE\<close>\<close>

text \<open>
  The function \<open>getDb\<close> registers. Its argument is declared a string; a missing value
  (\<open>null\<close> or \<open>undefined\<close>) is \<open>None\<close>. \<open>now\<close> is \<open>Date.now()\<close>. A difference outside the
  range of time values makes \<open>new Date(diff)\<close> invalid, its year \<open>NaN\<close>, and so the
  result.
\<close>

definition CALC_AGE :: "int \<Rightarrow> (jsstring \<Rightarrow> int option) \<Rightarrow> jsstring option \<Rightarrow> jsvalue" where
  "CALC_AGE now dateParse dateStr =
     (case dateStr of
        None \<Rightarrow> JNull
      | Some s \<Rightarrow>
          if s = [] then JNull
          else (case newDate dateParse s of
                  None \<Rightarrow> JNull
                | Some dob \<Rightarrow>
                    let diff = now - dob
                    in if \<bar>diff\<bar> \<le> maxTime
                       then JNum (Finite (of_int \<bar>YearFromTime diff - 1970\<bar>))
                       else JNum NaN))"

subsection \<open>\<open>loadTableFromCSV\<close>\<close>

text \<open>\<open>.replace(/_+/g, '_')\<close>: every run of underscores becomes one.\<close>

function collapseUnderscores :: "jsstring \<Rightarrow> jsstring" where
  "collapseUnderscores [] = []"
| "collapseUnderscores (c # cs) =
     (if c = UNDERSCORE
      then UNDERSCORE # collapseUnderscores (dropWhile (\<lambda>d. d = UNDERSCORE) cs)
      else c # collapseUnderscores cs)"
  by pat_completeness auto
termination
  by (relation "measure length") (auto simp: less_Suc_eq_le length_dropWhile_le)

definition sanitizeTableName :: "jsstring \<Rightarrow> jsstring" where
  "sanitizeTableName requestedName =
     (let safeTableName =
            map (\<lambda>c. if isIdentChar c then c else UNDERSCORE) (replaceWhitespaceRuns requestedName);
          safeTableName =
            (if startsWithDigit safeTableName then UNDERSCORE # safeTableName else safeTableName)
      in collapseUnderscores safeTableName)"

definition stripBOM :: "jsstring \<Rightarrow> jsstring" where
  "stripBOM s = (case s of c # cs \<Rightarrow> if c = BOM then cs else s | [] \<Rightarrow> [])"

definition getProp :: "jsvalue \<Rightarrow> jsstring \<Rightarrow> jsvalue" where
  "getProp v k =
     (case v of
        JObj ps \<Rightarrow> (case map_of ps k of Some x \<Rightarrow> x | None \<Rightarrow> JUndefined)
      | JArr xs \<Rightarrow>
          if isArrayIndex k \<and> digitsValue k < length xs then xs ! digitsValue k else JUndefined
      | JStr s \<Rightarrow>
          if isArrayIndex k \<and> digitsValue k < length s then JStr [s ! digitsValue k]
          else JUndefined
      | _ \<Rightarrow> JUndefined)"

definition typeofNumber :: "jsvalue \<Rightarrow> bool" where
  "typeofNumber v = (case v of JNum _ \<Rightarrow> True | _ \<Rightarrow> False)"

definition typeofString :: "jsvalue \<Rightarrow> bool" where
  "typeofString v = (case v of JStr _ \<Rightarrow> True | _ \<Rightarrow> False)"

record TableColumn =
  name :: jsstring
  type :: jsstring

record TableSchema =
  tableName :: jsstring
  columns :: "TableColumn list"
  rowCount :: nat
  sampleData :: "jsvalue list"

text \<open>The \<open>try\<close> block of \<open>loadTableFromCSV\<close>: the engine after it and the schema, or what was thrown.\<close>

definition registerTable :: "alasql \<Rightarrow> jsstring \<Rightarrow> jsvalue list \<Rightarrow> jserror + (TableSchema \<times> alasql)" where
  "registerTable db safeTableName rows =
     (case dropTableIfExists safeTableName db of
        Inl e \<Rightarrow> Inl e
      | Inr db1 \<Rightarrow>
          (case createTable safeTableName db1 of
             Inl e \<Rightarrow> Inl e
           | Inr db2 \<Rightarrow>
               (case (if tables db2 safeTableName \<noteq> None
                      then Inr (db2\<lparr>tables := (tables db2)(safeTableName \<mapsto> rows)\<rparr>)
                      else selectInto safeTableName rows db2) of
                  Inl e \<Rightarrow> Inl e
                | Inr db3 \<Rightarrow>
                    let firstRow = hd rows
                    in Inr (\<lparr>tableName = safeTableName,
                             columns = map (\<lambda>key. \<lparr>name = key,
                                 type = (if typeofNumber (getProp firstRow key)
                                         then js ''NUMBER'' else js ''STRING'')\<rparr>)
                               (objectKeys firstRow),
                             rowCount = length rows,
                             sampleData = take 3 rows\<rparr>, db3))))"

text \<open>
  The promise \<open>loadTableFromCSV\<close> returns settles with a schema or rejects with an
  error; the engine is changed by then only when the load succeeded through
  \<open>registerTable\<close> (what a failed load leaves in the engine is not modelled).
\<close>

definition loadTableFromCSV ::
  "(jsstring \<Rightarrow> int option) \<Rightarrow> alasql option \<Rightarrow> jsstring \<Rightarrow> jsstring \<Rightarrow> jserror + (TableSchema \<times> alasql)" where
  "loadTableFromCSV dateParse window requestedName csvContent =
     (case getDb window of
        Inl e \<Rightarrow> Inl e
      | Inr db \<Rightarrow>
          let safeTableName = sanitizeTableName requestedName;
              cleanContent = stripBOM csvContent;
              rows = parseCSV dateParse cleanContent
          in if length rows = 0 then Inl (Error (js ''CSV file is empty or could not be parsed''))
             else (case registerTable db safeTableName rows of
                     Inl (Error message) \<Rightarrow> Inl (Error (js ''Database error: '' @ message))
                   | Inr r \<Rightarrow> Inr r))"

subsection \<open>\<open>executeSQL\<close>\<close>

record QueryResult =
  data :: "jsvalue list"
  columns :: "jsstring list"
  sql :: jsstring
  error :: "jsstring option"

definition isObject :: "jsvalue \<Rightarrow> bool" where
  "isObject r = (case r of JObj _ \<Rightarrow> True | JArr _ \<Rightarrow> True | _ \<Rightarrow> False)"

definition executeSQL :: "alasql option \<Rightarrow> jsstring \<Rightarrow> jserror + QueryResult" where
  "executeSQL window query =
     (case getDb window of
        Inl e \<Rightarrow> Inl e
      | Inr db \<Rightarrow>
          (case answer db query of
             Inr result \<Rightarrow>
               let rows = (case result of JArr xs \<Rightarrow> xs | _ \<Rightarrow> []);
                   normalizedRows = map (\<lambda>r. if isObject r then r else JObj [(js ''value'', r)]) rows;
                   keys = (if length normalizedRows > 0 then objectKeys (hd normalizedRows) else [])
               in Inr \<lparr>data = normalizedRows, columns = keys, sql = query, error = None\<rparr>
           | Inl (Error message) \<Rightarrow>
               Inr \<lparr>data = [], columns = [], sql = query, error = Some message\<rparr>))"

text \<open>A string with no two underscores in a row.\<close>

fun noRepeatedUnderscore :: "jsstring \<Rightarrow> bool" where
  "noRepeatedUnderscore (c # d # rest) =
     (\<not> (c = UNDERSCORE \<and> d = UNDERSCORE) \<and> noRepeatedUnderscore (d # rest))"
| "noRepeatedUnderscore s = True"

text \<open>A string in which no underscore stands next to another underscore or to white space.\<close>

fun noUnderscoreClash :: "jsstring \<Rightarrow> bool" where
  "noUnderscoreClash (c # d # rest) =
     (\<not> (c = UNDERSCORE \<and> d = UNDERSCORE) \<and> \<not> (c = UNDERSCORE \<and> isWhiteSpace d) \<and>
      \<not> (isWhiteSpace c \<and> d = UNDERSCORE) \<and> noUnderscoreClash (d # rest))"
| "noUnderscoreClash s = True"

text \<open>The letters and digits of a string, in their order.\<close>

definition lettersAndDigits :: "jsstring \<Rightarrow> jsstring" where
  "lettersAndDigits s = filter (\<lambda>c. isLetter c \<or> isDigit c) s"

text \<open>
  The raw headers for which \<open>clean\<close> comes out empty, so that the header name is the
  fallback \<open>col_<index>\<close>.
\<close>

definition headerFallsBack :: "jsstring \<Rightarrow> bool" where
  "headerFallsBack h \<longleftrightarrow> filter isIdentChar (replaceWhitespaceRuns (trim h)) = []"

section \<open>The chart selector\<close>

text \<open>
  \<open>SqlVisualizer\<close> renders nothing, a pie, a scatter plot, or a line or bar chart. Only
  the choice is modelled, not the rendering.
\<close>

datatype chart = NoChart | PieChart | ScatterChart | LineChart | BarChart

text \<open>
  \<open>toLowerCase\<close> on the letters A to Z. The host also lowers letters outside ASCII; none
  of them becomes a letter of \<open>date\<close> or \<open>year\<close>, so \<open>includes\<close> (here \<open>includesStr\<close>) is not affected.
\<close>

definition toLowerCase :: "jsstring \<Rightarrow> jsstring" where
  "toLowerCase s = map (\<lambda>c. if 65 \<le> c \<and> c \<le> 90 then c + 32 else c) s"

fun includesStr :: "jsstring \<Rightarrow> jsstring \<Rightarrow> bool" where
  "includesStr [] sub = (sub = [])"
| "includesStr (c # cs) sub = (startsWith (c # cs) sub \<or> includesStr cs sub)"

text \<open>A string is truthy when it is not empty: \<open>result.error\<close> in the first test.\<close>

definition truthy :: "jsstring option \<Rightarrow> bool" where
  "truthy e = (case e of None \<Rightarrow> False | Some m \<Rightarrow> m \<noteq> [])"

text \<open>
  The columns of the first row whose value there is a number, and those whose value is a
  string, in the order of the row's keys.
\<close>

definition numericCols :: "jsvalue \<Rightarrow> jsstring list" where
  "numericCols firstRow =
     filter (\<lambda>key. typeofNumber (getProp firstRow key)) (objectKeys firstRow)"

definition stringCols :: "jsvalue \<Rightarrow> jsstring list" where
  "stringCols firstRow =
     filter (\<lambda>key. typeofString (getProp firstRow key)) (objectKeys firstRow)"

definition isTrend :: "jsstring list \<Rightarrow> bool" where
  "isTrend cols =
     (case cols of
        [] \<Rightarrow> False
      | first # _ \<Rightarrow>
          includesStr (toLowerCase first) (js ''date'') \<or>
          includesStr (toLowerCase first) (js ''year''))"

definition SqlVisualizer :: "QueryResult \<Rightarrow> chart" where
  "SqlVisualizer result =
     (if length (data result) = 0 \<or> truthy (error result) then NoChart
      else
        let rows = data result
        in if length rows \<le> 10 \<and> length (stringCols (rows ! 0)) = 1
                \<and> length (numericCols (rows ! 0)) = 1 then PieChart
           else if length (numericCols (rows ! 0)) = 2 \<and> length rows > 5 then ScatterChart
           else if isTrend (stringCols (rows ! 0)) then LineChart
           else BarChart)"

section \<open>Properties of the tokenizer\<close>

lemma scanLine_no_quote:
  "(\<And>v. v \<in> set values \<Longrightarrow> DQUOTE \<notin> set v) \<Longrightarrow> DQUOTE \<notin> set current \<Longrightarrow>
   v \<in> set (scanLine line values current inQuotes) \<Longrightarrow> DQUOTE \<notin> set v"
proof (induction line arbitrary: "values" current inQuotes)
  case Nil
  then show ?case by auto
next
  case (Cons char rest)
  show ?case
  proof (cases "char = DQUOTE")
    case True
    with Cons.prems have "v \<in> set (scanLine rest values current (\<not> inQuotes))" by simp
    with Cons.IH Cons.prems(1,2) show ?thesis by blast
  next
    case notq: False
    show ?thesis
    proof (cases "char = COMMA \<and> \<not> inQuotes")
      case True
      with notq Cons.prems have mem: "v \<in> set (scanLine rest (values @ [current]) [] inQuotes)"
        by simp
      have "\<And>w. w \<in> set (values @ [current]) \<Longrightarrow> DQUOTE \<notin> set w"
        using Cons.prems(1,2) by auto
      from Cons.IH [OF this _ mem] show ?thesis by simp
    next
      case False
      with notq Cons.prems have mem: "v \<in> set (scanLine rest values (current @ [char]) inQuotes)"
        by auto
      have "DQUOTE \<notin> set (current @ [char])" using notq Cons.prems(2) by simp
      from Cons.IH [OF Cons.prems(1) this mem] show ?thesis by simp
    qed
  qed
qed

lemma set_trim: "set (trim s) \<subseteq> set s"
proof -
  have "set (trim s) \<subseteq> set (dropWhile isWhiteSpace s)"
    unfolding trim_def using set_dropWhileD by fastforce
  also have "\<dots> \<subseteq> set s" using set_dropWhileD by fastforce
  finally show ?thesis .
qed

lemma unquoteField_no_quote: "DQUOTE \<notin> set v \<Longrightarrow> unquoteField v = v"
proof -
  assume nq: "DQUOTE \<notin> set v"
  have "\<not> startsWith (trim v) [DQUOTE]"
  proof
    assume "startsWith (trim v) [DQUOTE]"
    then have "take 1 (trim v) = [DQUOTE]" by (simp add: startsWith_def)
    then have "DQUOTE \<in> set (trim v)" by (metis in_set_takeD list.set_intros(1))
    with set_trim nq show False by blast
  qed
  then show ?thesis by (simp add: unquoteField_def)
qed

text \<open>
  C9. For every input line, no field the tokenizer returns contains a double-quote
  character: every \<open>"\<close> of the input only flips the in-quotes flag and is never appended
  to a field, so a literal quote cannot appear in a parsed cell.
\<close>

theorem parseCSVLine_fields_have_no_quote:
  "\<forall>v \<in> set (parseCSVLine line). DQUOTE \<notin> set v"
proof
  fix v assume "v \<in> set (parseCSVLine line)"
  then obtain w where w: "w \<in> set (scanLine line [] [] False)" and v: "v = unquoteField w"
    by (auto simp: parseCSVLine_def)
  from w have "DQUOTE \<notin> set w" by (rule scanLine_no_quote [rotated 2]) simp_all
  with v show "DQUOTE \<notin> set v" by (simp add: unquoteField_no_quote)
qed

theorem parseCSVLine_fields_have_no_quote_witness:
  \<open>js ''a,b'' \<in> set (parseCSVLine (js ''"a,b",c'')) \<and> DQUOTE \<notin> set (js ''a,b'')\<close>
proof -
  have m: \<open>js ''a,b'' \<in> set (parseCSVLine (js ''"a,b",c''))\<close>
    by (simp add: parseCSVLine_def unquoteField_def trim_def startsWith_def js_def
        DQUOTE_def COMMA_def isWhiteSpace_def)
  from parseCSVLine_fields_have_no_quote m have "DQUOTE \<notin> set (js ''a,b'')" by blast
  with m show ?thesis by simp
qed

text \<open>
  C4. The tokenizer splits on commas and keeps a comma inside a quoted span as a
  character of the field. A doubled quote inside a quoted span does not become a literal
  quote: the scan drops every quote character before the \<open>""\<close> replacement can see it.
  On the line \<open>"say ""hi""",x\<close> the first field is \<open>say hi\<close>, where the claim expects
  \<open>say "hi"\<close>.
\<close>

theorem parseCSVLine_doubled_quote_is_dropped:
  \<open>parseCSVLine (js ''"say ""hi""",x'') = [js ''say hi'', js ''x'']\<close>
  by (simp add: parseCSVLine_def unquoteField_def trim_def startsWith_def js_def
      DQUOTE_def COMMA_def isWhiteSpace_def)

subsection \<open>Commas\<close>

text \<open>
  Outside quotes the scan splits at every comma: a line without a quote is cut as
  \<open>split(',')\<close> would cut it.
\<close>

lemma scanLine_unquoted:
  "DQUOTE \<notin> set line \<Longrightarrow>
   scanLine line values current False = values @ splitLoop COMMA current line"
  by (induction line arbitrary: "values" current) simp_all

lemma parseCSVLine_unquoted:
  assumes "DQUOTE \<notin> set line"
  shows "parseCSVLine line = splitOn COMMA line"
proof -
  have "unquoteField v = v" if "v \<in> set (scanLine line [] [] False)" for v
  proof -
    from that have "DQUOTE \<notin> set v" by (rule scanLine_no_quote [rotated 2]) simp_all
    then show ?thesis by (rule unquoteField_no_quote)
  qed
  then have "map unquoteField (scanLine line [] [] False) = scanLine line [] [] False"
    by (intro map_idI)
  with assms show ?thesis by (simp add: parseCSVLine_def splitOn_def scanLine_unquoted)
qed

text \<open>
  Inside quotes nothing splits: a quoted span without a quote in it goes into the
  current field whole, commas included, and the scan goes on after its closing quote.
\<close>

lemma scanLine_inside_quotes:
  "DQUOTE \<notin> set body \<Longrightarrow>
   scanLine (body @ DQUOTE # rest) values current True
     = scanLine rest values (current @ body) False"
  by (induction body arbitrary: current) simp_all

lemma scanLine_quoted_span:
  "DQUOTE \<notin> set body \<Longrightarrow>
   scanLine (DQUOTE # body @ DQUOTE # rest) values current False
     = scanLine rest values (current @ body) False"
  by (simp add: scanLine_inside_quotes)

section \<open>Properties of \<open>trim\<close>\<close>

lemma dropWhile_hd_id: "s \<noteq> [] \<Longrightarrow> \<not> P (hd s) \<Longrightarrow> dropWhile P s = s"
  by (cases s) simp_all

lemma last_dropWhile: "dropWhile P xs \<noteq> [] \<Longrightarrow> last (dropWhile P xs) = last xs"
  by (induction xs) (auto split: if_splits)

lemma trim_ends:
  assumes "trim s \<noteq> []"
  shows "\<not> isWhiteSpace (hd (trim s))" and "\<not> isWhiteSpace (last (trim s))"
proof -
  let ?u = "dropWhile isWhiteSpace s"
  let ?v = "dropWhile isWhiteSpace (rev ?u)"
  from assms have v: "?v \<noteq> []" by (simp add: trim_def)
  then have "rev ?u \<noteq> []" by (metis dropWhile.simps(1))
  then have u: "?u \<noteq> []" by (metis rev.simps(1))
  have "last (trim s) = hd ?v" using v by (simp add: trim_def last_rev)
  moreover have "\<not> isWhiteSpace (hd ?v)" using v by (rule hd_dropWhile)
  ultimately show "\<not> isWhiteSpace (last (trim s))" by simp
  have "hd (trim s) = last ?v" using v by (simp add: trim_def hd_rev)
  also have "\<dots> = last (rev ?u)" using v by (rule last_dropWhile)
  also have "\<dots> = hd ?u" using u by (simp add: last_rev)
  finally have "hd (trim s) = hd ?u" .
  moreover have "\<not> isWhiteSpace (hd ?u)" using u by (rule hd_dropWhile)
  ultimately show "\<not> isWhiteSpace (hd (trim s))" by simp
qed

lemma trim_fixed:
  assumes "s \<noteq> []" and "\<not> isWhiteSpace (hd s)" and "\<not> isWhiteSpace (last s)"
  shows "trim s = s"
proof -
  from assms(1,2) have "dropWhile isWhiteSpace s = s" by (rule dropWhile_hd_id)
  moreover from assms(1,3) have "dropWhile isWhiteSpace (rev s) = rev s"
    by (intro dropWhile_hd_id) (simp_all add: hd_rev)
  ultimately show ?thesis by (simp add: trim_def)
qed

lemma trim_idem: "trim (trim s) = trim s"
proof (cases "trim s = []")
  case True
  have "trim [] = []" by (simp add: trim_def)
  with True show ?thesis by (simp only:)
next
  case False
  from trim_fixed [OF False trim_ends [OF False]] show ?thesis .
qed

section \<open>Properties of cell inference\<close>

lemmas cell_defs = parseCell_def splitOn_def trim_def isWhiteSpace_def js_def
  PERCENT_def SLASH_def HYPHEN_def Number_def parseUnsignedDecimal_def parseMantissa_def
  isDigit_def isLetter_def digitsValue_def isNaN_def startsWith6to9_def
  matchesDayMonYear_def matchesDayMonthYear_def padStart_def

lemmas csv_defs = parseCSV_def csvLines_def csvHeaders_def replaceCR_def parseCSVLine_def
  unquoteField_def startsWith_def sanitizeHeader_def isIdentChar_def startsWithDigit_def
  uniqueNameLoop.simps candidate_def showNat.simps buildRow_def assignProp_def defineOwn_def
  isArrayIndex_def cellAt_def NEWLINE_def CR_def UNDERSCORE_def DQUOTE_def COMMA_def

lemma parseCell_trim: "parseCell dateParse raw = parseCell dateParse (trim raw)"
  by (simp add: parseCell_def trim_idem)

text \<open>
  C2. In cell inference, every cell whose trimmed text is \<open>86.80 %\<close> is stored as the
  number 86.8 and every cell whose trimmed text is \<open>93.44 / -----\<close> as the number 93.44;
  a cell \<open>9876543210\<close> (ten characters, the first a digit from 6 to 9, numeric otherwise)
  stays the string \<open>9876543210\<close>. This holds whatever the host does with dates.
\<close>

theorem parseCell_numeric_examples:
  "(trim raw = js ''86.80 %'' \<longrightarrow> parseCell dateParse raw = JNum (Finite 86.8)) \<and>
   (trim raw = js ''93.44 / -----'' \<longrightarrow> parseCell dateParse raw = JNum (Finite 93.44)) \<and>
   (trim raw = js ''9876543210'' \<longrightarrow> parseCell dateParse raw = JStr (js ''9876543210''))"
proof (intro conjI impI)
  have a: "parseCell dateParse (js ''86.80 %'') = JNum (Finite 86.8)"
    by (simp add: cell_defs)
  have b: "parseCell dateParse (js ''93.44 / -----'') = JNum (Finite 93.44)"
    by (simp add: cell_defs)
  have c: "parseCell dateParse (js ''9876543210'') = JStr (js ''9876543210'')"
    by (simp add: cell_defs)
  show "parseCell dateParse raw = JNum (Finite 86.8)" if "trim raw = js ''86.80 %''"
    using that a by (subst parseCell_trim) simp
  show "parseCell dateParse raw = JNum (Finite 93.44)" if "trim raw = js ''93.44 / -----''"
    using that b by (subst parseCell_trim) simp
  show "parseCell dateParse raw = JStr (js ''9876543210'')" if "trim raw = js ''9876543210''"
    using that c by (subst parseCell_trim) simp
qed

theorem parseCell_numeric_examples_witness:
  "parseCell (\<lambda>_. None) (js ''  86.80 % '') = JNum (Finite 86.8) \<and>
   parseCell (\<lambda>_. None) (js ''93.44 / -----'') = JNum (Finite 93.44) \<and>
   parseCell (\<lambda>_. None) (js '' 9876543210'') = JStr (js ''9876543210'')"
proof -
  have t1: "trim (js ''  86.80 % '') = js ''86.80 %''"
    and t2: "trim (js ''93.44 / -----'') = js ''93.44 / -----''"
    and t3: "trim (js '' 9876543210'') = js ''9876543210''"
    by (simp_all add: trim_def isWhiteSpace_def js_def)
  from parseCell_numeric_examples [of "js ''  86.80 % ''" "\<lambda>_. None"] t1
  have a: "parseCell (\<lambda>_. None) (js ''  86.80 % '') = JNum (Finite 86.8)" by blast
  from parseCell_numeric_examples [of "js ''93.44 / -----''" "\<lambda>_. None"] t2
  have b: "parseCell (\<lambda>_. None) (js ''93.44 / -----'') = JNum (Finite 93.44)" by blast
  from parseCell_numeric_examples [of "js '' 9876543210''" "\<lambda>_. None"] t3
  have c: "parseCell (\<lambda>_. None) (js '' 9876543210'') = JStr (js ''9876543210'')" by blast
  from a b c show ?thesis by blast
qed

subsection \<open>Runs of digits are numbers\<close>

lemma digit_not_whiteSpace: "isDigit c \<Longrightarrow> \<not> isWhiteSpace c"
  by (auto simp: isDigit_def isWhiteSpace_def)

lemma trim_digits:
  assumes "d \<noteq> []" and "list_all isDigit d"
  shows "trim d = d"
proof -
  from assms have "isDigit (hd d)" and "isDigit (last d)" by (simp_all add: list_all_iff)
  then have "\<not> isWhiteSpace (hd d)" and "\<not> isWhiteSpace (last d)"
    by (simp_all add: digit_not_whiteSpace)
  with assms(1) show ?thesis by (rule trim_fixed)
qed

lemma parseMantissa_digits:
  assumes "d \<noteq> []" and "list_all isDigit d"
  shows "parseMantissa d = Some (of_nat (digitsValue d))"
proof -
  from assms(2) have t: "takeWhile isDigit d = d" and r: "dropWhile isDigit d = []"
    by (simp_all add: list_all_iff)
  from assms(1) show ?thesis by (simp add: parseMantissa_def t r)
qed

lemma parseUnsignedDecimal_digits:
  assumes "d \<noteq> []" and "list_all isDigit d"
  shows "parseUnsignedDecimal d = Finite (of_nat (digitsValue d))"
proof -
  have ne: "\<forall>c \<in> set d. c \<noteq> 101 \<and> c \<noteq> 69"
    using assms(2) by (auto simp: list_all_iff isDigit_def)
  then have t: "takeWhile (\<lambda>c. c \<noteq> 101 \<and> c \<noteq> 69) d = d"
    and r: "dropWhile (\<lambda>c. c \<noteq> 101 \<and> c \<noteq> 69) d = []"
    by simp_all
  from assms have "isDigit (hd d)" by (simp add: list_all_iff)
  then have "d \<noteq> js ''Infinity''" by (auto simp: js_def isDigit_def)
  then show ?thesis
    by (simp add: parseUnsignedDecimal_def t r parseMantissa_digits [OF assms])
qed

lemma Number_digits:
  assumes "d \<noteq> []" and "list_all isDigit d"
  shows "Number d = Finite (of_nat (digitsValue d))"
proof -
  have second: "take 2 d = [a, b] \<Longrightarrow> isDigit b" for a b
  proof -
    assume "take 2 d = [a, b]"
    then have "b \<in> set (take 2 d)" by simp
    then have "b \<in> set d" by (rule in_set_takeD)
    with assms(2) show "isDigit b" by (simp add: list_all_iff)
  qed
  have nx: "take 2 d \<noteq> js ''0x''" "take 2 d \<noteq> js ''0X''" "take 2 d \<noteq> js ''0o''"
    "take 2 d \<noteq> js ''0O''" "take 2 d \<noteq> js ''0b''" "take 2 d \<noteq> js ''0B''"
    using second by (auto simp: js_def isDigit_def)
  from assms have "isDigit (hd d)" by (simp add: list_all_iff)
  then have sg: "hd d \<noteq> 43" "hd d \<noteq> 45" by (auto simp: isDigit_def)
  from assms(1) nx sg show ?thesis
    by (simp add: Number_def trim_digits [OF assms] parseUnsignedDecimal_digits [OF assms])
qed

lemma hd_splitLoop: "hd (splitLoop sep current s) = current @ takeWhile (\<lambda>c. c \<noteq> sep) s"
  by (induction s arbitrary: current) simp_all

lemma hd_splitOn: "hd (splitOn sep s) = takeWhile (\<lambda>c. c \<noteq> sep) s"
  by (simp add: splitOn_def hd_splitLoop)

lemma takeWhile_filter_prefix:
  assumes "\<forall>c \<in> set (takeWhile Q s). P c" and "\<forall>c. \<not> Q c \<longrightarrow> P c"
  shows "takeWhile Q (filter P s) = takeWhile Q s"
  using assms by (induction s) (auto split: if_splits)

text \<open>
  The day/month/year branch of \<open>parseCell\<close> is dead: a string its pattern matches
  starts with one or two digits and a slash, so the numeric test before it succeeds.
  Such a cell is stored as the number of its day, or kept as it is when it has ten
  characters and starts with a digit from 6 to 9.
\<close>

lemma parseCell_slash_date_branch_is_dead:
  assumes "matchesDayMonthYear (trim raw)"
  shows "parseCell dateParse raw =
           (if length (trim raw) = 10 \<and> startsWith6to9 (trim raw) then JStr (trim raw)
            else JNum (Finite (of_nat (digitsValue (hd (splitOn SLASH (trim raw)))))))"
proof -
  let ?val = "trim raw"
  let ?d = "hd (splitOn SLASH ?val)"
  from assms obtain d m y where parts: "splitOn SLASH ?val = [d, m, y]"
    and dig: "list_all isDigit d" and len: "1 \<le> length d"
    by (auto simp: matchesDayMonthYear_def split: list.splits)
  then have d: "?d = d" by simp
  from len have ne: "d \<noteq> []" by auto
  have dt: "takeWhile (\<lambda>c. c \<noteq> SLASH) ?val = d" using d by (simp add: hd_splitOn)
  have "\<forall>c \<in> set (takeWhile (\<lambda>c. c \<noteq> SLASH) ?val). c \<noteq> PERCENT"
    using dig unfolding dt by (auto simp: list_all_iff isDigit_def PERCENT_def)
  moreover have "\<forall>c. \<not> c \<noteq> SLASH \<longrightarrow> c \<noteq> PERCENT" by (simp add: SLASH_def PERCENT_def)
  ultimately have "takeWhile (\<lambda>c. c \<noteq> SLASH) (filter (\<lambda>c. c \<noteq> PERCENT) ?val) = d"
    using dt by (simp add: takeWhile_filter_prefix)
  then have clean: "trim (hd (splitOn SLASH (filter (\<lambda>c. c \<noteq> PERCENT) ?val))) = d"
    by (simp add: hd_splitOn trim_digits [OF ne dig])
  have num: "Number d = Finite (of_nat (digitsValue d))" using ne dig by (rule Number_digits)
  show ?thesis
    unfolding parseCell_def Let_def clean num d using ne by (simp add: isNaN_def)
qed

text \<open>
  C1. A cell \<open>05/01/2001\<close> is not stored as \<open>2001-01-05\<close>. The numeric test comes first
  and its candidate is the text before the first slash, \<open>05\<close>, which is a number: the cell
  is stored as the number 5 and the day/month/year branch is never reached.
\<close>

theorem parseCell_slash_date_is_number:
  "parseCell dateParse (js ''05/01/2001'') = JNum (Finite 5)"
  by (simp add: cell_defs)

text \<open>
  A cell \<open>17-Sep-2003\<close> goes through the host's reading of the string. A host that
  reads it as midnight UTC gives \<open>2003-09-17\<close>; one that reads it as local midnight
  five and a half hours east of Greenwich gives the day before; where the host cannot
  read it the cell keeps its text.
\<close>

lemma parseCell_day_mon_year_follows_host:
  "parseCell (\<lambda>_. Some 1063756800000) (js ''17-Sep-2003'') = JStr (js ''2003-09-17'') \<and>
   parseCell (\<lambda>_. Some 1063737000000) (js ''17-Sep-2003'') = JStr (js ''2003-09-16'') \<and>
   parseCell (\<lambda>_. None) (js ''17-Sep-2003'') = JStr (js ''17-Sep-2003'')"
proof -
  have a: "toISODate 1063756800000 = js ''2003-09-17''" by code_simp
  have b: "toISODate 1063737000000 = js ''2003-09-16''" by code_simp
  show ?thesis by (simp add: cell_defs newDate_def maxTime_def a b)
qed

section \<open>Properties of the chart selector\<close>

lemmas chart_defs = SqlVisualizer_def numericCols_def stringCols_def isTrend_def truthy_def
  objectKeys_def getProp_def typeofNumber_def typeofString_def toLowerCase_def startsWith_def
  js_def

text \<open>The pie test comes first: with it satisfied, no column name is looked at.\<close>

lemma SqlVisualizer_pie_first:
  assumes "rows \<noteq> []" and "length rows \<le> 10" and "\<not> truthy e"
    and "length (stringCols (rows ! 0)) = 1" and "length (numericCols (rows ! 0)) = 1"
  shows "SqlVisualizer \<lparr>data = rows, columns = cs, sql = q, error = e\<rparr> = PieChart"
  using assms by (simp add: SqlVisualizer_def)

lemma SqlVisualizer_scatter:
  assumes "length rows > 5" and "\<not> truthy e" and "length (numericCols (rows ! 0)) = 2"
  shows "SqlVisualizer \<lparr>data = rows, columns = cs, sql = q, error = e\<rparr> = ScatterChart"
  using assms by (auto simp: SqlVisualizer_def)

lemma SqlVisualizer_gender_count_is_pie:
  "SqlVisualizer
     \<lparr>data = [JObj [(js ''Gender'', JStr (js ''F'')), (js ''Count'', JNum (Finite 5))],
              JObj [(js ''Gender'', JStr (js ''M'')), (js ''Count'', JNum (Finite 3))]],
      columns = [js ''Gender'', js ''Count''], sql = q, error = None\<rparr> = PieChart"
  by (simp add: chart_defs)

lemma SqlVisualizer_year_long_is_line:
  "SqlVisualizer
     \<lparr>data = replicate 11 (JObj [(js ''Year'', JStr (js ''2021'')), (js ''Total'', JNum (Finite 10))]),
      columns = [js ''Year'', js ''Total''], sql = q, error = None\<rparr> = LineChart"
  by (simp add: chart_defs eval_nat_numeral)

text \<open>
  C5. The rows \<open>{Gender, Count}\<close> give a pie and two numeric columns on more than five
  rows give a scatter plot (the lemmas above). Four rows of a string column \<open>Year\<close> and
  a numeric column do not give a line chart: they meet the pie test, which comes first,
  and are drawn as a pie.
\<close>

theorem SqlVisualizer_year_trend_is_pie:
  "SqlVisualizer
     \<lparr>data = [JObj [(js ''Year'', JStr (js ''2021'')), (js ''Total'', JNum (Finite 10))],
              JObj [(js ''Year'', JStr (js ''2022'')), (js ''Total'', JNum (Finite 12))],
              JObj [(js ''Year'', JStr (js ''2023'')), (js ''Total'', JNum (Finite 15))],
              JObj [(js ''Year'', JStr (js ''2024'')), (js ''Total'', JNum (Finite 11))]],
      columns = [js ''Year'', js ''Total''], sql = q, error = None\<rparr> = PieChart"
  by (simp add: chart_defs)

section \<open>Properties of \<open>executeSQL\<close>\<close>

lemma executeSQL_without_engine:
  "executeSQL None query = Inl (Error (js ''Database engine not initialized''))"
  by (simp add: executeSQL_def getDb_def)

text \<open>
  C3 as stated fails: \<open>getDb\<close> is called before the \<open>try\<close>, so without an engine
  \<open>executeSQL\<close> throws.
\<close>

theorem executeSQL_throws_without_engine:
  "executeSQL None (js ''SELECT 1'') = Inl (Error (js ''Database engine not initialized''))"
  by (simp add: executeSQL_def getDb_def)

text \<open>
  C3, amended. With an engine, \<open>executeSQL\<close> returns a result for every statement; when
  the engine throws an error, the result has no rows, no columns, the statement itself
  and the message of the error.
\<close>

theorem executeSQL_captures_engine_error:
  "(\<exists>r. executeSQL (Some db) query = Inr r) \<and>
   (answer db query = Inl (Error message) \<longrightarrow>
      executeSQL (Some db) query =
        Inr \<lparr>data = [], columns = [], sql = query, error = Some message\<rparr>)"
proof
  show "\<exists>r. executeSQL (Some db) query = Inr r"
  proof (cases "answer db query")
    case (Inl e)
    then show ?thesis by (cases e) (simp add: executeSQL_def getDb_def)
  next
    case (Inr v)
    then show ?thesis by (simp add: executeSQL_def getDb_def Let_def)
  qed
  show "answer db query = Inl (Error message) \<longrightarrow>
      executeSQL (Some db) query =
        Inr \<lparr>data = [], columns = [], sql = query, error = Some message\<rparr>"
    by (simp add: executeSQL_def getDb_def)
qed

theorem executeSQL_captures_engine_error_witness:
  "executeSQL
     (Some \<lparr>tables = Map.empty, refuses = (\<lambda>_. False),
            answer = (\<lambda>_. Inl (Error (js ''Parse error''))), calcAge = False\<rparr>)
     (js ''SELEC 1'') =
   Inr \<lparr>data = [], columns = [], sql = js ''SELEC 1'', error = Some (js ''Parse error'')\<rparr>"
  using executeSQL_captures_engine_error
    [of "\<lparr>tables = Map.empty, refuses = (\<lambda>_. False),
            answer = (\<lambda>_. Inl (Error (js ''Parse error''))), calcAge = False\<rparr>"
        "js ''SELEC 1''" "js ''Parse error''"]
  by simp

text \<open>A scalar the engine returns in an array is wrapped as \<open>{value: ...}\<close>.\<close>

lemma executeSQL_wraps_scalar:
  "answer db query = Inr (JArr [JNum (Finite 1)]) \<Longrightarrow>
   executeSQL (Some db) query =
     Inr \<lparr>data = [JObj [(js ''value'', JNum (Finite 1))]], columns = [js ''value''],
          sql = query, error = None\<rparr>"
  by (simp add: executeSQL_def getDb_def isObject_def objectKeys_def)

section \<open>Table names and header names\<close>

lemma identChar_not_whiteSpace: "isIdentChar c \<Longrightarrow> \<not> isWhiteSpace c"
  by (auto simp: isIdentChar_def isLetter_def isDigit_def UNDERSCORE_def isWhiteSpace_def)

lemma collapseUnderscores_id:
  "noRepeatedUnderscore s \<Longrightarrow> collapseUnderscores s = s"
proof (induction s rule: collapseUnderscores.induct)
  case 1
  show ?case by simp
next
  case (2 c cs)
  show ?case
  proof (cases cs)
    case Nil
    then show ?thesis by simp
  next
    case (Cons d rest)
    with "2.prems" have nr: "\<not> (c = UNDERSCORE \<and> d = UNDERSCORE)"
      and tl: "noRepeatedUnderscore cs" by simp_all
    show ?thesis
    proof (cases "c = UNDERSCORE")
      case True
      with nr Cons have dw: "dropWhile (\<lambda>d. d = UNDERSCORE) cs = cs" by simp
      with "2.IH"(1) True tl have "collapseUnderscores cs = cs" by simp
      with True dw show ?thesis by simp
    next
      case False
      with "2.IH"(2) tl have "collapseUnderscores cs = cs" by simp
      with False show ?thesis by simp
    qed
  qed
qed

lemma noRepeatedUnderscore_digit_prefix:
  assumes "startsWithDigit s" and "noRepeatedUnderscore s"
  shows "noRepeatedUnderscore (UNDERSCORE # s)"
proof (cases s)
  case Nil
  then show ?thesis by simp
next
  case (Cons d rest)
  with assms(1) have "d \<noteq> UNDERSCORE"
    by (auto simp: startsWithDigit_def isDigit_def UNDERSCORE_def)
  with Cons assms(2) show ?thesis by simp
qed

lemma showNat_not_Nil: "showNat n \<noteq> []"
  by (subst showNat.simps) simp

lemma sanitizeHeader_proper: "properName (sanitizeHeader h i)"
proof -
  have c: "\<not> isDigit (hd (js ''col_'' @ showNat i))" by (simp add: js_def isDigit_def)
  have u: "\<not> isDigit UNDERSCORE" by (simp add: isDigit_def UNDERSCORE_def)
  show ?thesis
    using c u
    by (auto simp: sanitizeHeader_def properName_def Let_def startsWithDigit_def js_def)
qed

subsection \<open>Letters and digits\<close>

lemma letterOrDigit_identChar: "isLetter c \<or> isDigit c \<Longrightarrow> isIdentChar c"
  by (auto simp: isIdentChar_def)

lemma letterOrDigit_not_whiteSpace: "isLetter c \<or> isDigit c \<Longrightarrow> \<not> isWhiteSpace c"
  by (auto simp: isLetter_def isDigit_def isWhiteSpace_def)

lemma letterOrDigit_not_underscore: "isLetter c \<or> isDigit c \<Longrightarrow> c \<noteq> UNDERSCORE"
  by (auto simp: isLetter_def isDigit_def UNDERSCORE_def)

lemma filter_dropWhile_disjoint:
  "(\<And>c. Q c \<Longrightarrow> \<not> P c) \<Longrightarrow> filter P (dropWhile Q xs) = filter P xs"
  by (induction xs) auto

lemma lettersAndDigits_dropWhile_whiteSpace:
  "lettersAndDigits (dropWhile isWhiteSpace xs) = lettersAndDigits xs"
  unfolding lettersAndDigits_def
  by (rule filter_dropWhile_disjoint) (auto simp: isLetter_def isDigit_def isWhiteSpace_def)

lemma lettersAndDigits_dropWhile_underscore:
  "lettersAndDigits (dropWhile (\<lambda>d. d = UNDERSCORE) xs) = lettersAndDigits xs"
  unfolding lettersAndDigits_def
  by (rule filter_dropWhile_disjoint) (auto simp: isLetter_def isDigit_def UNDERSCORE_def)

lemma lettersAndDigits_underscore: "lettersAndDigits (UNDERSCORE # xs) = lettersAndDigits xs"
  by (simp add: lettersAndDigits_def isLetter_def isDigit_def UNDERSCORE_def)

lemma lettersAndDigits_replaceWhitespaceRuns:
  "lettersAndDigits (replaceWhitespaceRuns s) = lettersAndDigits s"
proof (induction s rule: replaceWhitespaceRuns.induct)
  case 1
  show ?case by simp
next
  case (2 c cs)
  show ?case
  proof (cases "isWhiteSpace c")
    case True
    then have "\<not> (isLetter c \<or> isDigit c)" using letterOrDigit_not_whiteSpace by blast
    then have "lettersAndDigits (c # cs) = lettersAndDigits cs" by (simp add: lettersAndDigits_def)
    with True "2.IH"(1) show ?thesis
      by (simp add: lettersAndDigits_underscore lettersAndDigits_dropWhile_whiteSpace)
  next
    case False
    with "2.IH"(2) show ?thesis by (simp add: lettersAndDigits_def)
  qed
qed

lemma lettersAndDigits_rev: "lettersAndDigits (rev xs) = rev (lettersAndDigits xs)"
  by (simp add: lettersAndDigits_def rev_filter)

lemma lettersAndDigits_trim: "lettersAndDigits (trim s) = lettersAndDigits s"
  by (simp add: trim_def lettersAndDigits_rev lettersAndDigits_dropWhile_whiteSpace)

lemma lettersAndDigits_collapseUnderscores:
  "lettersAndDigits (collapseUnderscores x) = lettersAndDigits x"
proof (induction x rule: collapseUnderscores.induct)
  case 1
  show ?case by simp
next
  case (2 c cs)
  show ?case
  proof (cases "c = UNDERSCORE")
    case True
    with "2.IH"(1) show ?thesis
      by (simp add: lettersAndDigits_underscore lettersAndDigits_dropWhile_underscore)
  next
    case False
    with "2.IH"(2) show ?thesis by (simp add: lettersAndDigits_def)
  qed
qed

lemma lettersAndDigits_replace_invalid:
  "lettersAndDigits (map (\<lambda>c. if isIdentChar c then c else UNDERSCORE) r) = lettersAndDigits r"
proof (induction r)
  case Nil
  show ?case by simp
next
  case (Cons c r)
  show ?case
  proof (cases "isIdentChar c")
    case True
    with Cons show ?thesis by (simp add: lettersAndDigits_def)
  next
    case False
    then have "\<not> (isLetter c \<or> isDigit c)" using letterOrDigit_identChar by blast
    then have "lettersAndDigits (c # r) = lettersAndDigits r" by (simp add: lettersAndDigits_def)
    with False Cons show ?thesis by (simp add: lettersAndDigits_underscore)
  qed
qed

lemma lettersAndDigits_strip_invalid:
  "lettersAndDigits (filter isIdentChar r) = lettersAndDigits r"
  unfolding lettersAndDigits_def
  by (induction r) (auto simp: isIdentChar_def)

text \<open>The table name keeps the letters and digits of the requested name, all of them and in order.\<close>

lemma lettersAndDigits_sanitizeTableName:
  "lettersAndDigits (sanitizeTableName s) = lettersAndDigits s"
  by (simp add: sanitizeTableName_def Let_def lettersAndDigits_collapseUnderscores
      lettersAndDigits_underscore lettersAndDigits_replace_invalid
      lettersAndDigits_replaceWhitespaceRuns)

text \<open>So does the header name, unless it is the fallback.\<close>

lemma lettersAndDigits_sanitizeHeader:
  "\<not> headerFallsBack s \<Longrightarrow> lettersAndDigits (sanitizeHeader s i) = lettersAndDigits s"
  by (simp add: sanitizeHeader_def headerFallsBack_def Let_def lettersAndDigits_underscore
      lettersAndDigits_strip_invalid lettersAndDigits_replaceWhitespaceRuns
      lettersAndDigits_trim)

lemma sanitizeHeader_fallback:
  assumes "headerFallsBack s"
  shows "sanitizeHeader s i = js ''col_'' @ showNat i"
    and "lettersAndDigits s = []"
proof -
  have "\<not> startsWithDigit (js ''col_'' @ showNat i)"
    by (simp add: startsWithDigit_def js_def isDigit_def)
  with assms show "sanitizeHeader s i = js ''col_'' @ showNat i"
    by (simp add: sanitizeHeader_def headerFallsBack_def Let_def)
  from assms have "lettersAndDigits (filter isIdentChar (replaceWhitespaceRuns (trim s))) = []"
    by (simp add: headerFallsBack_def lettersAndDigits_def)
  then show "lettersAndDigits s = []"
    by (simp add: lettersAndDigits_strip_invalid lettersAndDigits_replaceWhitespaceRuns
        lettersAndDigits_trim)
qed

lemma sanitizeTableName_never_fallback:
  assumes "headerFallsBack s"
  shows "sanitizeTableName s \<noteq> sanitizeHeader s i"
proof
  assume "sanitizeTableName s = sanitizeHeader s i"
  then have "lettersAndDigits (sanitizeTableName s) = lettersAndDigits (sanitizeHeader s i)"
    by simp
  then have "lettersAndDigits (js ''col_'' @ showNat i) = []"
    using sanitizeHeader_fallback(1) [OF assms, of i] sanitizeHeader_fallback(2) [OF assms]
    by (simp add: lettersAndDigits_sanitizeTableName)
  then show False by (simp add: lettersAndDigits_def js_def isLetter_def)
qed

subsection \<open>The shape of the two names\<close>

lemma noRepeatedUnderscore_Cons:
  "noRepeatedUnderscore (x # r) \<longleftrightarrow>
     (r \<noteq> [] \<longrightarrow> \<not> (x = UNDERSCORE \<and> hd r = UNDERSCORE)) \<and> noRepeatedUnderscore r"
  by (cases r) auto

lemma collapseUnderscores_Nil_iff: "collapseUnderscores x = [] \<longleftrightarrow> x = []"
  by (cases x) simp_all

lemma hd_collapseUnderscores: "x \<noteq> [] \<Longrightarrow> hd (collapseUnderscores x) = hd x"
  by (cases x) simp_all

lemma set_collapseUnderscores: "set (collapseUnderscores x) \<subseteq> set x"
proof (induction x rule: collapseUnderscores.induct)
  case 1
  show ?case by simp
next
  case (2 c cs)
  show ?case
  proof (cases "c = UNDERSCORE")
    case True
    have "set (dropWhile (\<lambda>d. d = UNDERSCORE) cs) \<subseteq> set cs" using set_dropWhileD by fastforce
    with "2.IH"(1) True show ?thesis by auto
  next
    case False
    with "2.IH"(2) show ?thesis by auto
  qed
qed

lemma noRepeatedUnderscore_collapseUnderscores: "noRepeatedUnderscore (collapseUnderscores x)"
proof (induction x rule: collapseUnderscores.induct)
  case 1
  show ?case by simp
next
  case (2 c cs)
  show ?case
  proof (cases "c = UNDERSCORE")
    case True
    let ?d = "dropWhile (\<lambda>d. d = UNDERSCORE) cs"
    have "hd (collapseUnderscores ?d) \<noteq> UNDERSCORE" if "collapseUnderscores ?d \<noteq> []"
    proof -
      from that have ne: "?d \<noteq> []" by (simp add: collapseUnderscores_Nil_iff)
      then have "hd ?d \<noteq> UNDERSCORE" using hd_dropWhile [of "\<lambda>d. d = UNDERSCORE" cs] by simp
      with ne show ?thesis by (simp add: hd_collapseUnderscores)
    qed
    with "2.IH"(1) True show ?thesis by (simp add: noRepeatedUnderscore_Cons)
  next
    case False
    with "2.IH"(2) show ?thesis by (simp add: noRepeatedUnderscore_Cons)
  qed
qed

lemma startsWithDigit_collapseUnderscores:
  "startsWithDigit (collapseUnderscores x) = startsWithDigit x"
  by (cases "x = []")
     (simp_all add: startsWithDigit_def collapseUnderscores_Nil_iff hd_collapseUnderscores)

lemma not_startsWithDigit_guard:
  "\<not> startsWithDigit (if startsWithDigit m then UNDERSCORE # m else m)"
  by (simp add: startsWithDigit_def isDigit_def UNDERSCORE_def)

lemma identChar_underscore: "isIdentChar UNDERSCORE"
  by (simp add: isIdentChar_def)

lemma identChars_collapseUnderscores:
  assumes "list_all isIdentChar x"
  shows "list_all isIdentChar (collapseUnderscores x)"
proof -
  have "\<forall>c \<in> set (collapseUnderscores x). isIdentChar c"
  proof
    fix c assume "c \<in> set (collapseUnderscores x)"
    with set_collapseUnderscores [of x] have "c \<in> set x" by (rule subsetD)
    with assms show "isIdentChar c" by (simp add: list_all_iff)
  qed
  then show ?thesis by (simp add: list_all_iff)
qed

lemma identChars_replace_invalid:
  "list_all isIdentChar (map (\<lambda>c. if isIdentChar c then c else UNDERSCORE) r)"
  by (induction r) (simp_all add: identChar_underscore)

lemma sanitizeTableName_shape:
  "list_all isIdentChar (sanitizeTableName s)"
  "\<not> startsWithDigit (sanitizeTableName s)"
  "noRepeatedUnderscore (sanitizeTableName s)"
proof -
  define m where "m = map (\<lambda>c. if isIdentChar c then c else UNDERSCORE) (replaceWhitespaceRuns s)"
  define g where "g = (if startsWithDigit m then UNDERSCORE # m else m)"
  have t: "sanitizeTableName s = collapseUnderscores g"
    by (simp add: sanitizeTableName_def Let_def g_def m_def)
  have "list_all isIdentChar m" unfolding m_def by (rule identChars_replace_invalid)
  then have "list_all isIdentChar g" by (simp add: g_def identChar_underscore)
  then show "list_all isIdentChar (sanitizeTableName s)"
    unfolding t by (rule identChars_collapseUnderscores)
  have "\<not> startsWithDigit g" unfolding g_def by (rule not_startsWithDigit_guard)
  then show "\<not> startsWithDigit (sanitizeTableName s)"
    by (simp add: t startsWithDigit_collapseUnderscores)
  show "noRepeatedUnderscore (sanitizeTableName s)"
    unfolding t by (rule noRepeatedUnderscore_collapseUnderscores)
qed

lemma showNat_digits: "list_all isDigit (showNat n)"
proof (induction n rule: showNat.induct)
  case (1 n)
  show ?case
  proof (cases "n < 10")
    case True
    then show ?thesis by (subst showNat.simps) (simp add: isDigit_def)
  next
    case False
    have "n mod 10 < 10" by simp
    then have "isDigit (48 + n mod 10)" unfolding isDigit_def by linarith
    with False 1 show ?thesis by (subst showNat.simps) simp
  qed
qed

lemma sanitizeHeader_identChars: "list_all isIdentChar (sanitizeHeader h i)"
proof -
  have d: "list_all isIdentChar (showNat i)"
    using showNat_digits [of i] by (auto simp: list_all_iff isIdentChar_def)
  have c: "list_all isIdentChar (js ''col_'')"
    by (simp add: js_def isIdentChar_def isLetter_def UNDERSCORE_def)
  show ?thesis
    using c d by (auto simp: sanitizeHeader_def Let_def identChar_underscore list_all_iff)
qed

lemma sanitizeHeader_trims: "sanitizeHeader (trim h) i = sanitizeHeader h i"
  by (simp add: sanitizeHeader_def trim_idem)


subsection \<open>Where the two names are equal\<close>

lemma replaceWhitespaceRuns_Nil_iff: "replaceWhitespaceRuns s = [] \<longleftrightarrow> s = []"
  by (cases s) simp_all

lemma hd_replaceWhitespaceRuns:
  "s \<noteq> [] \<Longrightarrow> hd (replaceWhitespaceRuns s) = (if isWhiteSpace (hd s) then UNDERSCORE else hd s)"
  by (cases s) simp_all

lemma replaceWhitespaceRuns_identChars:
  "\<forall>c \<in> set s. isIdentChar c \<or> isWhiteSpace c \<Longrightarrow>
   \<forall>c \<in> set (replaceWhitespaceRuns s). isIdentChar c"
proof (induction s rule: replaceWhitespaceRuns.induct)
  case 1
  show ?case by simp
next
  case (2 c cs)
  show ?case
  proof (cases "isWhiteSpace c")
    case True
    have "set (dropWhile isWhiteSpace cs) \<subseteq> set cs" using set_dropWhileD by fastforce
    with "2.prems" have "\<forall>c \<in> set (dropWhile isWhiteSpace cs). isIdentChar c \<or> isWhiteSpace c"
      by auto
    with "2.IH"(1) True show ?thesis by (simp add: identChar_underscore)
  next
    case False
    with "2.prems" "2.IH"(2) show ?thesis by auto
  qed
qed

lemma noUnderscoreClash_tl: "noUnderscoreClash (c # cs) \<Longrightarrow> noUnderscoreClash cs"
  by (cases cs) simp_all

lemma noUnderscoreClash_after_whiteSpace:
  "noUnderscoreClash (c # cs) \<Longrightarrow> isWhiteSpace c \<Longrightarrow>
   noUnderscoreClash (dropWhile isWhiteSpace cs) \<and>
   (dropWhile isWhiteSpace cs \<noteq> [] \<longrightarrow> hd (dropWhile isWhiteSpace cs) \<noteq> UNDERSCORE)"
proof (induction cs arbitrary: c)
  case Nil
  show ?case by simp
next
  case (Cons d ds)
  from Cons.prems have d: "d \<noteq> UNDERSCORE" and rest: "noUnderscoreClash (d # ds)" by auto
  show ?case
  proof (cases "isWhiteSpace d")
    case True
    with Cons.IH [OF rest] show ?thesis by simp
  next
    case False
    with d rest show ?thesis by simp
  qed
qed

lemma noRepeatedUnderscore_replaceWhitespaceRuns:
  "noUnderscoreClash s \<Longrightarrow> noRepeatedUnderscore (replaceWhitespaceRuns s)"
proof (induction s rule: replaceWhitespaceRuns.induct)
  case 1
  show ?case by simp
next
  case (2 c cs)
  show ?case
  proof (cases "isWhiteSpace c")
    case True
    let ?d = "dropWhile isWhiteSpace cs"
    from noUnderscoreClash_after_whiteSpace [OF "2.prems" True]
    have clash: "noUnderscoreClash ?d" and first: "?d \<noteq> [] \<longrightarrow> hd ?d \<noteq> UNDERSCORE" by simp_all
    have "hd (replaceWhitespaceRuns ?d) \<noteq> UNDERSCORE" if "replaceWhitespaceRuns ?d \<noteq> []"
    proof -
      from that have ne: "?d \<noteq> []" by (simp add: replaceWhitespaceRuns_Nil_iff)
      then have "\<not> isWhiteSpace (hd ?d)" by (rule hd_dropWhile)
      with ne first show ?thesis by (simp add: hd_replaceWhitespaceRuns)
    qed
    with "2.IH"(1) [OF True clash] True show ?thesis by (simp add: noRepeatedUnderscore_Cons)
  next
    case False
    from "2.prems" have clash: "noUnderscoreClash cs" by (rule noUnderscoreClash_tl)
    have "\<not> (c = UNDERSCORE \<and> hd (replaceWhitespaceRuns cs) = UNDERSCORE)"
      if "replaceWhitespaceRuns cs \<noteq> []"
    proof (cases cs)
      case Nil
      with that show ?thesis by simp
    next
      case (Cons d ds)
      with "2.prems" have "\<not> (c = UNDERSCORE \<and> d = UNDERSCORE)"
        and "\<not> (c = UNDERSCORE \<and> isWhiteSpace d)" by simp_all
      with Cons show ?thesis by (auto simp: hd_replaceWhitespaceRuns)
    qed
    with "2.IH"(2) [OF False clash] False show ?thesis by (simp add: noRepeatedUnderscore_Cons)
  qed
qed

lemma sanitizers_agree:
  assumes ne: "s \<noteq> []"
    and chars: "\<forall>c \<in> set s. isIdentChar c \<or> isWhiteSpace c"
    and first: "\<not> isWhiteSpace (hd s)" and last: "\<not> isWhiteSpace (last s)"
    and clash: "noUnderscoreClash s"
  shows "sanitizeHeader s i =
           (if startsWithDigit s then UNDERSCORE # replaceWhitespaceRuns s
            else replaceWhitespaceRuns s)"
    and "sanitizeTableName s = sanitizeHeader s i"
proof -
  let ?r = "replaceWhitespaceRuns s"
  let ?g = "if startsWithDigit s then UNDERSCORE # ?r else ?r"
  have tr: "trim s = s" using ne first last by (rule trim_fixed)
  have id: "\<forall>c \<in> set ?r. isIdentChar c" using chars by (rule replaceWhitespaceRuns_identChars)
  then have f: "filter isIdentChar ?r = ?r" by simp
  have m: "map (\<lambda>c. if isIdentChar c then c else UNDERSCORE) ?r = ?r"
    using id by (intro map_idI) simp
  have rne: "?r \<noteq> []" using ne by (simp add: replaceWhitespaceRuns_Nil_iff)
  have "hd ?r = hd s" using ne first by (simp add: hd_replaceWhitespaceRuns)
  with ne rne have sd: "startsWithDigit ?r = startsWithDigit s" by (simp add: startsWithDigit_def)
  show h: "sanitizeHeader s i = ?g"
    using rne by (simp add: sanitizeHeader_def tr f sd)
  have nr: "noRepeatedUnderscore ?r" using clash by (rule noRepeatedUnderscore_replaceWhitespaceRuns)
  have "noRepeatedUnderscore ?g"
  proof (cases "startsWithDigit s")
    case True
    with sd have "startsWithDigit ?r" by simp
    from noRepeatedUnderscore_digit_prefix [OF this nr] True show ?thesis by simp
  next
    case False
    with nr show ?thesis by simp
  qed
  then have "collapseUnderscores ?g = ?g" by (rule collapseUnderscores_id)
  then have "sanitizeTableName s = ?g" by (simp add: sanitizeTableName_def m sd)
  with h show "sanitizeTableName s = sanitizeHeader s i" by simp
qed


subsection \<open>The two sanitizers compared\<close>

text \<open>
  C7 as stated fails. The table name replaces a character outside \<open>[A-Za-z0-9_]\<close> by an
  underscore; the header drops it.
\<close>

theorem sanitizeTableName_differs_from_sanitizeHeader:
  "sanitizeTableName (js ''a-b'') = js ''a_b'' \<and> sanitizeHeader (js ''a-b'') 0 = js ''ab''"
  by (simp add: sanitizeTableName_def sanitizeHeader_def trim_def isWhiteSpace_def js_def
      isIdentChar_def isLetter_def isDigit_def UNDERSCORE_def startsWithDigit_def)

text \<open>
  The other three differences: only the header is trimmed, only the table name has its
  runs of underscores collapsed, and only the header has the \<open>col_<index>\<close> fallback.
\<close>

lemma sanitizers_differ_elsewhere:
  "sanitizeTableName (js '' a'') = js ''_a'' \<and> sanitizeHeader (js '' a'') 0 = js ''a'' \<and>
   sanitizeTableName (js ''a__b'') = js ''a_b'' \<and> sanitizeHeader (js ''a__b'') 0 = js ''a__b'' \<and>
   sanitizeTableName [] = [] \<and> sanitizeHeader [] 2 = js ''col_2''"
  by (simp add: sanitizeTableName_def sanitizeHeader_def trim_def isWhiteSpace_def js_def
      isIdentChar_def isLetter_def isDigit_def UNDERSCORE_def startsWithDigit_def showNat.simps)

text \<open>
  C7, amended. For every input string:
  \<^item> if it is not empty, has only letters, digits, underscores and white space, neither
    starts nor ends with white space, and has no underscore next to another underscore
    or to white space, then the table name and the header name are the same identifier:
    the input with every run of white space turned into one underscore, and an
    underscore in front when it starts with a digit;
  \<^item> the table name has exactly the letters and digits of the input, in their order, and
    so has the header name unless it is the fallback \<open>col_<index>\<close>, in which case the two
    names differ; so the two names can differ only in their underscores;
  \<^item> both names have only characters of \<open>[A-Za-z0-9_]\<close> and neither starts with a digit;
    the table name never has two underscores in a row, the header name is never empty,
    and the header name of an input is that of the trimmed input.
\<close>

theorem sanitizeTableName_versus_sanitizeHeader:
  "(s \<noteq> [] \<and> list_all (\<lambda>c. isIdentChar c \<or> isWhiteSpace c) s \<and>
    \<not> isWhiteSpace (hd s) \<and> \<not> isWhiteSpace (last s) \<and> noUnderscoreClash s \<longrightarrow>
      sanitizeTableName s = sanitizeHeader s i \<and>
      sanitizeHeader s i =
        (if startsWithDigit s then UNDERSCORE # replaceWhitespaceRuns s
         else replaceWhitespaceRuns s)) \<and>
   lettersAndDigits (sanitizeTableName s) = lettersAndDigits s \<and>
   (\<not> headerFallsBack s \<longrightarrow> lettersAndDigits (sanitizeHeader s i) = lettersAndDigits s) \<and>
   (headerFallsBack s \<longrightarrow>
      sanitizeHeader s i = js ''col_'' @ showNat i \<and> sanitizeTableName s \<noteq> sanitizeHeader s i) \<and>
   list_all isIdentChar (sanitizeTableName s) \<and> \<not> startsWithDigit (sanitizeTableName s) \<and>
   noRepeatedUnderscore (sanitizeTableName s) \<and>
   list_all isIdentChar (sanitizeHeader s i) \<and> properName (sanitizeHeader s i) \<and>
   sanitizeHeader (trim s) i = sanitizeHeader s i"
proof (intro conjI impI)
  assume h: "s \<noteq> [] \<and> list_all (\<lambda>c. isIdentChar c \<or> isWhiteSpace c) s \<and>
    \<not> isWhiteSpace (hd s) \<and> \<not> isWhiteSpace (last s) \<and> noUnderscoreClash s"
  then have ne: "s \<noteq> []" and chars: "\<forall>c \<in> set s. isIdentChar c \<or> isWhiteSpace c"
    and ends: "\<not> isWhiteSpace (hd s)" "\<not> isWhiteSpace (last s)"
    and clash: "noUnderscoreClash s"
    by (simp_all add: list_all_iff)
  from sanitizers_agree(2) [OF ne chars ends clash]
  show "sanitizeTableName s = sanitizeHeader s i" .
  from sanitizers_agree(1) [OF ne chars ends clash]
  show "sanitizeHeader s i =
      (if startsWithDigit s then UNDERSCORE # replaceWhitespaceRuns s
       else replaceWhitespaceRuns s)" .
next
  show "lettersAndDigits (sanitizeTableName s) = lettersAndDigits s"
    by (rule lettersAndDigits_sanitizeTableName)
next
  assume "\<not> headerFallsBack s"
  then show "lettersAndDigits (sanitizeHeader s i) = lettersAndDigits s"
    by (rule lettersAndDigits_sanitizeHeader)
next
  assume f: "headerFallsBack s"
  then show "sanitizeHeader s i = js ''col_'' @ showNat i" by (rule sanitizeHeader_fallback(1))
  from f show "sanitizeTableName s \<noteq> sanitizeHeader s i" by (rule sanitizeTableName_never_fallback)
next
  show "list_all isIdentChar (sanitizeTableName s)" by (rule sanitizeTableName_shape(1))
  show "\<not> startsWithDigit (sanitizeTableName s)" by (rule sanitizeTableName_shape(2))
  show "noRepeatedUnderscore (sanitizeTableName s)" by (rule sanitizeTableName_shape(3))
  show "list_all isIdentChar (sanitizeHeader s i)" by (rule sanitizeHeader_identChars)
  show "properName (sanitizeHeader s i)" by (rule sanitizeHeader_proper)
  show "sanitizeHeader (trim s) i = sanitizeHeader s i" by (rule sanitizeHeader_trims)
qed

theorem sanitizeTableName_versus_sanitizeHeader_witness:
  "sanitizeTableName (js ''Student  Marks 1'') = sanitizeHeader (js ''Student  Marks 1'') 0 \<and>
   sanitizeHeader (js ''Student  Marks 1'') 0 = js ''Student_Marks_1'' \<and>
   sanitizeTableName (js ''10th CGPA'') = sanitizeHeader (js ''10th CGPA'') 7 \<and>
   sanitizeHeader (js ''10th CGPA'') 7 = js ''_10th_CGPA'' \<and>
   lettersAndDigits (sanitizeHeader (js ''a-b'') 0) = js ''ab'' \<and>
   lettersAndDigits (sanitizeTableName (js ''a-b'')) = js ''ab'' \<and>
   sanitizeHeader (js '' - '') 3 = js ''col_3'' \<and>
   sanitizeTableName (js '' - '') \<noteq> sanitizeHeader (js '' - '') 3"
proof -
  have a: "js ''Student  Marks 1'' \<noteq> [] \<and>
      list_all (\<lambda>c. isIdentChar c \<or> isWhiteSpace c) (js ''Student  Marks 1'') \<and>
      \<not> isWhiteSpace (hd (js ''Student  Marks 1'')) \<and>
      \<not> isWhiteSpace (last (js ''Student  Marks 1'')) \<and>
      noUnderscoreClash (js ''Student  Marks 1'')"
    by (simp add: js_def isIdentChar_def isLetter_def isDigit_def isWhiteSpace_def UNDERSCORE_def)
  have ar: "replaceWhitespaceRuns (js ''Student  Marks 1'') = js ''Student_Marks_1''"
    and ad: "\<not> startsWithDigit (js ''Student  Marks 1'')"
    by (simp_all add: js_def isWhiteSpace_def UNDERSCORE_def startsWithDigit_def isDigit_def)
  have b: "js ''10th CGPA'' \<noteq> [] \<and>
      list_all (\<lambda>c. isIdentChar c \<or> isWhiteSpace c) (js ''10th CGPA'') \<and>
      \<not> isWhiteSpace (hd (js ''10th CGPA'')) \<and>
      \<not> isWhiteSpace (last (js ''10th CGPA'')) \<and>
      noUnderscoreClash (js ''10th CGPA'')"
    by (simp add: js_def isIdentChar_def isLetter_def isDigit_def isWhiteSpace_def UNDERSCORE_def)
  have br: "replaceWhitespaceRuns (js ''10th CGPA'') = js ''10th_CGPA''"
    and bd: "startsWithDigit (js ''10th CGPA'')"
    by (simp_all add: js_def isWhiteSpace_def UNDERSCORE_def startsWithDigit_def isDigit_def)
  have c: "\<not> headerFallsBack (js ''a-b'')"
    and cl: "lettersAndDigits (js ''a-b'') = js ''ab''"
    by (simp_all add: headerFallsBack_def lettersAndDigits_def trim_def js_def isWhiteSpace_def
        isIdentChar_def isLetter_def isDigit_def UNDERSCORE_def)
  have d: "headerFallsBack (js '' - '')"
    and dn: "js ''col_'' @ showNat 3 = js ''col_3''"
    by (simp_all add: headerFallsBack_def trim_def js_def isWhiteSpace_def isIdentChar_def
        isLetter_def isDigit_def UNDERSCORE_def showNat.simps)
  from sanitizeTableName_versus_sanitizeHeader [of "js ''Student  Marks 1''" 0] a ar ad
  have r1: "sanitizeTableName (js ''Student  Marks 1'') = sanitizeHeader (js ''Student  Marks 1'') 0"
    "sanitizeHeader (js ''Student  Marks 1'') 0 = js ''Student_Marks_1''"
    by simp_all
  have be: "UNDERSCORE # js ''10th_CGPA'' = js ''_10th_CGPA''"
    by (simp add: js_def UNDERSCORE_def)
  from sanitizeTableName_versus_sanitizeHeader [of "js ''10th CGPA''" 7] b br bd be
  have r2: "sanitizeTableName (js ''10th CGPA'') = sanitizeHeader (js ''10th CGPA'') 7"
    "sanitizeHeader (js ''10th CGPA'') 7 = js ''_10th_CGPA''"
    by simp_all
  from sanitizeTableName_versus_sanitizeHeader [of "js ''a-b''" 0] c cl
  have r3: "lettersAndDigits (sanitizeHeader (js ''a-b'') 0) = js ''ab''"
    "lettersAndDigits (sanitizeTableName (js ''a-b'')) = js ''ab''"
    by simp_all
  from sanitizeTableName_versus_sanitizeHeader [of "js '' - ''" 3] d
  have r4': "sanitizeHeader (js '' - '') 3 = js ''col_'' @ showNat 3"
    and r4'': "sanitizeTableName (js '' - '') \<noteq> sanitizeHeader (js '' - '') 3"
    by blast+
  from r4' dn have r4: "sanitizeHeader (js '' - '') 3 = js ''col_3''" by (rule trans)
  from r1 r2 r3 r4 r4'' show ?thesis by blast
qed

section \<open>Properties of \<open>loadTableFromCSV\<close>\<close>

lemma registerTable_accepted:
  assumes "\<not> refuses db n"
  shows "\<exists>schema. registerTable db n rows = Inr (schema, db\<lparr>tables := (tables db)(n \<mapsto> rows)\<rparr>)
           \<and> tableName schema = n \<and> rowCount schema = length rows
           \<and> sampleData schema = take 3 rows"
  using assms
  by (simp add: registerTable_def dropTableIfExists_def createTable_def Let_def)

lemma registerTable_refused:
  "refuses db n \<Longrightarrow> registerTable db n rows = Inl (Error (js ''Parse error''))"
  by (simp add: registerTable_def dropTableIfExists_def)

text \<open>A load succeeds exactly when there is an engine, the file has rows and the engine takes the name.\<close>

lemma loadTableFromCSV_succeeds:
  assumes "parseCSV dateParse (stripBOM csvContent) \<noteq> []"
    and "\<not> refuses db (sanitizeTableName requestedName)"
  shows "\<exists>schema. loadTableFromCSV dateParse (Some db) requestedName csvContent =
           Inr (schema, db\<lparr>calcAge := True,
                  tables := (tables db)(sanitizeTableName requestedName \<mapsto>
                               parseCSV dateParse (stripBOM csvContent))\<rparr>)
         \<and> tableName schema = sanitizeTableName requestedName
         \<and> rowCount schema = length (parseCSV dateParse (stripBOM csvContent))
         \<and> sampleData schema = take 3 (parseCSV dateParse (stripBOM csvContent))"
proof -
  let ?db = "db\<lparr>calcAge := True\<rparr>"
  from assms(2) have "\<not> refuses ?db (sanitizeTableName requestedName)" by simp
  from registerTable_accepted [OF this, of "parseCSV dateParse (stripBOM csvContent)"]
  obtain schema where
    r: "registerTable ?db (sanitizeTableName requestedName) (parseCSV dateParse (stripBOM csvContent))
          = Inr (schema, ?db\<lparr>tables := (tables ?db)(sanitizeTableName requestedName \<mapsto>
                               parseCSV dateParse (stripBOM csvContent))\<rparr>)"
    and s: "tableName schema = sanitizeTableName requestedName"
      "rowCount schema = length (parseCSV dateParse (stripBOM csvContent))"
      "sampleData schema = take 3 (parseCSV dateParse (stripBOM csvContent))"
    by blast
  from assms(1) r have "loadTableFromCSV dateParse (Some db) requestedName csvContent =
      Inr (schema, db\<lparr>calcAge := True,
                  tables := (tables db)(sanitizeTableName requestedName \<mapsto>
                               parseCSV dateParse (stripBOM csvContent))\<rparr>)"
    by (simp add: loadTableFromCSV_def getDb_def Let_def)
  with s show ?thesis by blast
qed

lemma loadTableFromCSV_success_cases:
  assumes "loadTableFromCSV dateParse window requestedName csvContent = Inr (schema, db')"
  obtains db where "window = Some db"
    and "parseCSV dateParse (stripBOM csvContent) \<noteq> []"
    and "\<not> refuses db (sanitizeTableName requestedName)"
proof (cases window)
  case None
  with assms show ?thesis by (simp add: loadTableFromCSV_def getDb_def)
next
  case (Some db)
  have rows: "parseCSV dateParse (stripBOM csvContent) \<noteq> []"
  proof
    assume "parseCSV dateParse (stripBOM csvContent) = []"
    with assms Some show False by (simp add: loadTableFromCSV_def getDb_def Let_def)
  qed
  have acc: "\<not> refuses db (sanitizeTableName requestedName)"
  proof
    assume "refuses db (sanitizeTableName requestedName)"
    then have "refuses (db\<lparr>calcAge := True\<rparr>) (sanitizeTableName requestedName)" by simp
    from registerTable_refused [OF this] assms Some rows show False
      by (simp add: loadTableFromCSV_def getDb_def Let_def)
  qed
  from Some rows acc show ?thesis by (rule that)
qed

text \<open>
  C8. After a successful load of one file, a load of a second file (one with rows) under
  a name that sanitizes to the same table name succeeds, and the registered table then
  holds the rows of the second file only; the row count returned is theirs, less than
  the count of both files together. Before the second load the table held the rows of
  the first file.
\<close>

theorem loadTableFromCSV_reload_replaces:
  assumes first: "loadTableFromCSV dateParse window name1 csv1 = Inr (schema1, db1)"
    and same: "sanitizeTableName name2 = sanitizeTableName name1"
    and rows2: "parseCSV dateParse (stripBOM csv2) \<noteq> []"
  shows "\<exists>schema2 db2.
           loadTableFromCSV dateParse (Some db1) name2 csv2 = Inr (schema2, db2) \<and>
           tables db1 (sanitizeTableName name2) = Some (parseCSV dateParse (stripBOM csv1)) \<and>
           tables db2 (sanitizeTableName name2) = Some (parseCSV dateParse (stripBOM csv2)) \<and>
           rowCount schema2 = length (parseCSV dateParse (stripBOM csv2)) \<and>
           rowCount schema2 <
             length (parseCSV dateParse (stripBOM csv1)) + length (parseCSV dateParse (stripBOM csv2))"
proof -
  from first obtain db where w: "window = Some db"
    and rows1: "parseCSV dateParse (stripBOM csv1) \<noteq> []"
    and acc: "\<not> refuses db (sanitizeTableName name1)"
    by (rule loadTableFromCSV_success_cases)
  from loadTableFromCSV_succeeds [OF rows1 acc] first w
  have db1: "db1 = db\<lparr>calcAge := True,
      tables := (tables db)(sanitizeTableName name1 \<mapsto> parseCSV dateParse (stripBOM csv1))\<rparr>"
    by auto
  then have t1: "tables db1 (sanitizeTableName name2) = Some (parseCSV dateParse (stripBOM csv1))"
    using same by simp
  from db1 acc same have acc2: "\<not> refuses db1 (sanitizeTableName name2)" by simp
  from loadTableFromCSV_succeeds [OF rows2 acc2]
  obtain schema2 where
    l2: "loadTableFromCSV dateParse (Some db1) name2 csv2 =
           Inr (schema2, db1\<lparr>calcAge := True,
                  tables := (tables db1)(sanitizeTableName name2 \<mapsto>
                               parseCSV dateParse (stripBOM csv2))\<rparr>)"
    and c2: "rowCount schema2 = length (parseCSV dateParse (stripBOM csv2))"
    by blast
  from rows1 have "0 < length (parseCSV dateParse (stripBOM csv1))" by simp
  with l2 c2 t1 show ?thesis by simp
qed

lemma parseCSV_two_rows:
  "parseCSV dateParse (js ''a\<newline>1\<newline>2'') =
     [JObj [(js ''a'', JNum (Finite 1))], JObj [(js ''a'', JNum (Finite 2))]]"
  by (simp add: csv_defs cell_defs)

lemma parseCSV_one_row:
  "parseCSV dateParse (js ''a\<newline>3'') = [JObj [(js ''a'', JNum (Finite 3))]]"
  by (simp add: csv_defs cell_defs)

theorem loadTableFromCSV_reload_replaces_witness:
  "\<exists>schema1 db1 schema2 db2.
     loadTableFromCSV (\<lambda>_. None)
       (Some \<lparr>tables = Map.empty, refuses = (\<lambda>_. False),
              answer = (\<lambda>_. Inr JUndefined), calcAge = False\<rparr>)
       (js ''marks'') (js ''a\<newline>1\<newline>2'') = Inr (schema1, db1) \<and>
     loadTableFromCSV (\<lambda>_. None) (Some db1) (js ''marks'') (js ''a\<newline>3'')
       = Inr (schema2, db2) \<and>
     tables db1 (js ''marks'') =
       Some [JObj [(js ''a'', JNum (Finite 1))], JObj [(js ''a'', JNum (Finite 2))]] \<and>
     tables db2 (js ''marks'') = Some [JObj [(js ''a'', JNum (Finite 3))]] \<and>
     rowCount schema2 = 1"
proof -
  let ?db0 = "\<lparr>tables = Map.empty, refuses = (\<lambda>_. False),
               answer = (\<lambda>_. Inr JUndefined), calcAge = False\<rparr>"
  have s1: "stripBOM (js ''a\<newline>1\<newline>2'') = js ''a\<newline>1\<newline>2''"
    and s2: "stripBOM (js ''a\<newline>3'') = js ''a\<newline>3''"
    by (simp_all add: stripBOM_def js_def BOM_def)
  have n: "sanitizeTableName (js ''marks'') = js ''marks''"
    by (simp add: sanitizeTableName_def js_def isWhiteSpace_def isIdentChar_def isLetter_def
        isDigit_def UNDERSCORE_def startsWithDigit_def)
  have r1: "parseCSV (\<lambda>_. None) (stripBOM (js ''a\<newline>1\<newline>2'')) \<noteq> []"
    by (simp add: s1 parseCSV_two_rows)
  have r2: "parseCSV (\<lambda>_. None) (stripBOM (js ''a\<newline>3'')) \<noteq> []"
    by (simp add: s2 parseCSV_one_row)
  have "\<not> refuses ?db0 (sanitizeTableName (js ''marks''))" by simp
  from loadTableFromCSV_succeeds [OF r1 this]
  obtain schema1 db1 where
    l1: "loadTableFromCSV (\<lambda>_. None) (Some ?db0) (js ''marks'') (js ''a\<newline>1\<newline>2'')
           = Inr (schema1, db1)"
    by blast
  from loadTableFromCSV_reload_replaces [OF l1 refl r2]
  obtain schema2 db2 where
    "loadTableFromCSV (\<lambda>_. None) (Some db1) (js ''marks'') (js ''a\<newline>3'')
       = Inr (schema2, db2)"
    "tables db1 (js ''marks'') =
       Some [JObj [(js ''a'', JNum (Finite 1))], JObj [(js ''a'', JNum (Finite 2))]]"
    "tables db2 (js ''marks'') = Some [JObj [(js ''a'', JNum (Finite 3))]]"
    "rowCount schema2 = 1"
    by (auto simp: n s1 s2 parseCSV_two_rows parseCSV_one_row)
  with l1 show ?thesis by blast
qed

section \<open>Properties of \<open>CALC_AGE\<close>\<close>

lemma DayFromYear_mono: "y \<le> y' \<Longrightarrow> DayFromYear y \<le> DayFromYear y'"
proof (induction y' rule: int_ge_induct)
  case base
  show ?case by simp
next
  case (step i)
  with DayFromYear_step [of i] show ?case by simp
qed

lemma DayFromYear_1970: "DayFromYear 1970 = 0"
  by (simp add: DayFromYear_def)

lemma yearDown_le: "DayFromYear (yearDown d y) \<le> d"
  by (induction d y rule: yearDown.induct) (simp add: yearDown.simps)

lemma yearUp_le: "DayFromYear y \<le> d \<Longrightarrow> DayFromYear (yearUp d y) \<le> d"
  by (induction d y rule: yearUp.induct) (simp add: yearUp.simps)

lemma yearUp_gt: "d < DayFromYear (yearUp d y + 1)"
  by (induction d y rule: yearUp.induct) (simp add: yearUp.simps)

text \<open>
  The search finds the year of the day: the one whose first day is not after it and
  whose successor's first day is.
\<close>

lemma YearFromDay_bounds:
  "DayFromYear (YearFromDay d) \<le> d \<and> d < DayFromYear (YearFromDay d + 1)"
  unfolding YearFromDay_def by (simp add: yearUp_le yearDown_le yearUp_gt)

lemma YearFromDay_unique:
  assumes "DayFromYear y \<le> d" and "d < DayFromYear (y + 1)"
  shows "YearFromDay d = y"
proof (rule ccontr)
  assume ne: "YearFromDay d \<noteq> y"
  show False
  proof (cases "YearFromDay d < y")
    case True
    then have "DayFromYear (YearFromDay d + 1) \<le> DayFromYear y" by (intro DayFromYear_mono) simp
    with YearFromDay_bounds [of d] assms(1) show False by simp
  next
    case False
    with ne have "DayFromYear (y + 1) \<le> DayFromYear (YearFromDay d)"
      by (intro DayFromYear_mono) simp
    with YearFromDay_bounds [of d] assms(2) show False by simp
  qed
qed

lemma YearFromTime_before_epoch:
  assumes "t < 0"
  shows "YearFromTime t \<le> 1969"
proof (rule ccontr)
  assume "\<not> YearFromTime t \<le> 1969"
  then have "DayFromYear 1970 \<le> DayFromYear (YearFromTime t)" by (intro DayFromYear_mono) simp
  moreover have "DayFromYear (YearFromTime t) \<le> Day t"
    unfolding YearFromTime_def using YearFromDay_bounds by blast
  moreover from assms have "Day t < 0" by (simp add: Day_def msPerDay_def)
  ultimately show False by (simp add: DayFromYear_1970)
qed

lemma YearFromTime_from_epoch:
  assumes "0 \<le> t"
  shows "1970 \<le> YearFromTime t"
proof (rule ccontr)
  assume "\<not> 1970 \<le> YearFromTime t"
  then have "DayFromYear (YearFromTime t + 1) \<le> DayFromYear 1970" by (intro DayFromYear_mono) simp
  moreover have "Day t < DayFromYear (YearFromTime t + 1)"
    unfolding YearFromTime_def using YearFromDay_bounds by blast
  moreover from assms have "0 \<le> Day t" by (simp add: Day_def msPerDay_def)
  ultimately show False by (simp add: DayFromYear_1970)
qed

text \<open>
  C10 as stated fails for a date more than \<open>maxTime\<close> milliseconds before now: the host
  parses \<open>-271821-04-20T00:00:00Z\<close>, the first instant a date can hold, the difference
  from now is out of range, and the result is \<open>NaN\<close>, not a number of years.
\<close>

theorem CALC_AGE_earliest_date_is_NaN:
  "CALC_AGE 1700000000000 (\<lambda>_. Some (- 8640000000000000)) (Some (js ''-271821-04-20T00:00:00Z''))
     = JNum NaN"
  by (simp add: CALC_AGE_def newDate_def maxTime_def js_def)

text \<open>
  C10, amended. \<open>CALC_AGE\<close> returns \<open>null\<close> for a missing or empty argument and for a
  string that is not a date. For a date within the range of time values from now
  (at most \<open>maxTime\<close> milliseconds away) it returns the whole number
  \<open>|YearFromTime (now - date) - 1970|\<close>; for a date in the future this is at least 1.
\<close>

theorem CALC_AGE_result:
  "CALC_AGE now dateParse None = JNull \<and>
   CALC_AGE now dateParse (Some []) = JNull \<and>
   (newDate dateParse s = None \<longrightarrow> CALC_AGE now dateParse (Some s) = JNull) \<and>
   (s \<noteq> [] \<and> newDate dateParse s = Some dob \<and> \<bar>now - dob\<bar> \<le> maxTime \<longrightarrow>
      CALC_AGE now dateParse (Some s) =
        JNum (Finite (of_int \<bar>YearFromTime (now - dob) - 1970\<bar>)) \<and>
      (now < dob \<longrightarrow> 1 \<le> \<bar>YearFromTime (now - dob) - 1970\<bar>))"
proof (intro conjI impI)
  show "CALC_AGE now dateParse None = JNull" by (simp add: CALC_AGE_def)
  show "CALC_AGE now dateParse (Some []) = JNull" by (simp add: CALC_AGE_def)
  show "CALC_AGE now dateParse (Some s) = JNull" if "newDate dateParse s = None"
    using that by (simp add: CALC_AGE_def)
  show "CALC_AGE now dateParse (Some s) =
      JNum (Finite (of_int \<bar>YearFromTime (now - dob) - 1970\<bar>))"
    if "s \<noteq> [] \<and> newDate dateParse s = Some dob \<and> \<bar>now - dob\<bar> \<le> maxTime"
    using that by (simp add: CALC_AGE_def)
  show "1 \<le> \<bar>YearFromTime (now - dob) - 1970\<bar>" if "now < dob"
  proof -
    from that have "now - dob < 0" by simp
    then have "YearFromTime (now - dob) \<le> 1969" by (rule YearFromTime_before_epoch)
    then show ?thesis by simp
  qed
qed

theorem CALC_AGE_result_witness:
  "CALC_AGE 1700000000000 (\<lambda>_. Some 1063756800000) (Some (js ''2003-09-17'')) = JNum (Finite 20) \<and>
   CALC_AGE 1700000000000 (\<lambda>_. Some 1800000000000) (Some (js ''2027-01-15'')) = JNum (Finite 4) \<and>
   CALC_AGE 1700000000000 (\<lambda>_. None) (Some (js ''soon'')) = JNull"
proof -
  have y1: "YearFromTime (1700000000000 - 1063756800000) = 1990" by code_simp
  have y2: "YearFromTime (1700000000000 - 1800000000000) = 1966" by code_simp
  have n1: "js ''2003-09-17'' \<noteq> []" and n2: "js ''2027-01-15'' \<noteq> []" by (simp_all add: js_def)
  have d1: "newDate (\<lambda>_. Some 1063756800000) (js ''2003-09-17'') = Some 1063756800000"
    and d2: "newDate (\<lambda>_. Some 1800000000000) (js ''2027-01-15'') = Some 1800000000000"
    and d3: "newDate (\<lambda>_. None) (js ''soon'') = None"
    by (simp_all add: newDate_def maxTime_def)
  have r1: "\<bar>1700000000000 - 1063756800000 :: int\<bar> \<le> maxTime"
    and r2: "\<bar>1700000000000 - 1800000000000 :: int\<bar> \<le> maxTime"
    by (simp_all add: maxTime_def)
  from CALC_AGE_result [of 1700000000000 "\<lambda>_. Some 1063756800000" "js ''2003-09-17''" 1063756800000]
    n1 d1 r1 y1
  have a: "CALC_AGE 1700000000000 (\<lambda>_. Some 1063756800000) (Some (js ''2003-09-17''))
      = JNum (Finite 20)" by simp
  from CALC_AGE_result [of 1700000000000 "\<lambda>_. Some 1800000000000" "js ''2027-01-15''" 1800000000000]
    n2 d2 r2 y2
  have b: "CALC_AGE 1700000000000 (\<lambda>_. Some 1800000000000) (Some (js ''2027-01-15''))
      = JNum (Finite 4)" by simp
  from CALC_AGE_result [of 1700000000000 "\<lambda>_. None" "js ''soon''"] d3
  have c: "CALC_AGE 1700000000000 (\<lambda>_. None) (Some (js ''soon'')) = JNull" by simp
  from a b c show ?thesis by simp
qed

text \<open>
  For a date in the past the result counts whole years of the difference laid from the
  epoch: the difference in days lies between the first day of the year 1970 + age and
  the first day of the next.
\<close>

lemma CALC_AGE_past_whole_years:
  assumes "s \<noteq> []" and "newDate dateParse s = Some dob" and "dob \<le> now"
    and "now - dob \<le> maxTime"
  shows "\<exists>age\<ge>0. CALC_AGE now dateParse (Some s) = JNum (Finite (of_int age)) \<and>
           DayFromYear (1970 + age) \<le> Day (now - dob) \<and>
           Day (now - dob) < DayFromYear (1970 + age + 1)"
proof -
  let ?y = "YearFromTime (now - dob)"
  from assms(3) have ge: "1970 \<le> ?y" by (intro YearFromTime_from_epoch) simp
  from assms have "CALC_AGE now dateParse (Some s) = JNum (Finite (of_int \<bar>?y - 1970\<bar>))"
    by (simp add: CALC_AGE_def)
  with ge have "CALC_AGE now dateParse (Some s) = JNum (Finite (of_int (?y - 1970)))" by simp
  moreover have "DayFromYear (1970 + (?y - 1970)) \<le> Day (now - dob)"
    "Day (now - dob) < DayFromYear (1970 + (?y - 1970) + 1)"
    using YearFromDay_bounds [of "Day (now - dob)"] by (simp_all add: YearFromTime_def)
  ultimately show ?thesis using ge by (intro exI [of _ "?y - 1970"]) simp
qed

text \<open>With now after the epoch, every date in the future is in range and has a positive age.\<close>

lemma CALC_AGE_future_positive:
  assumes "s \<noteq> []" and "newDate dateParse s = Some dob" and "0 \<le> now" and "now < dob"
  shows "\<exists>age\<ge>1. CALC_AGE now dateParse (Some s) = JNum (Finite (of_int age))"
proof -
  from assms(2) have "\<bar>dob\<bar> \<le> maxTime"
    by (auto simp: newDate_def split: option.splits if_splits)
  with assms(3,4) have r: "\<bar>now - dob\<bar> \<le> maxTime" by simp
  from assms(4) have "now - dob < 0" by simp
  then have "YearFromTime (now - dob) \<le> 1969" by (rule YearFromTime_before_epoch)
  then have "1 \<le> \<bar>YearFromTime (now - dob) - 1970\<bar>" by simp
  moreover from assms(1,2) r have "CALC_AGE now dateParse (Some s) =
      JNum (Finite (of_int \<bar>YearFromTime (now - dob) - 1970\<bar>))"
    by (simp add: CALC_AGE_def)
  ultimately show ?thesis by blast
qed

section \<open>Properties of \<open>parseCSV\<close>\<close>

subsection \<open>Header names\<close>

lemma uniqueNameLoop_fresh: "uniqueNameLoop seen clean uniqueName counter \<notin> set seen"
  by (induction seen clean uniqueName counter rule: uniqueNameLoop.induct)
     (simp add: uniqueNameLoop.simps)

lemma sanitizeHeaders_distinct:
  "distinct (sanitizeHeaders raw i seen) \<and> set (sanitizeHeaders raw i seen) \<inter> set seen = {}"
proof (induction raw arbitrary: i seen)
  case Nil
  show ?case by simp
next
  case (Cons h hs)
  let ?u = "uniqueNameLoop seen (sanitizeHeader h i) (sanitizeHeader h i) 1"
  from Cons.IH [of "i + 1" "?u # seen"]
  have d: "distinct (sanitizeHeaders hs (i + 1) (?u # seen))"
    and e: "set (sanitizeHeaders hs (i + 1) (?u # seen)) \<inter> set (?u # seen) = {}"
    by simp_all
  from e have "?u \<notin> set (sanitizeHeaders hs (i + 1) (?u # seen))" by auto
  moreover have "?u \<notin> set seen" by (rule uniqueNameLoop_fresh)
  ultimately show ?case using d e by (auto simp: Let_def)
qed

lemma uniqueNameLoop_proper:
  "properName clean \<Longrightarrow> properName uniqueName \<Longrightarrow>
   properName (uniqueNameLoop seen clean uniqueName counter)"
proof (induction seen clean uniqueName counter rule: uniqueNameLoop.induct)
  case (1 seen clean uniqueName counter)
  show ?case
  proof (cases "uniqueName \<in> set seen")
    case True
    from "1.prems"(1) have "properName (candidate clean counter)"
      by (simp add: properName_def candidate_def)
    with "1.IH" True "1.prems"(1) show ?thesis by (subst uniqueNameLoop.simps) simp
  next
    case False
    with "1.prems"(2) show ?thesis by (subst uniqueNameLoop.simps) simp
  qed
qed

lemma sanitizeHeaders_proper: "\<forall>h \<in> set (sanitizeHeaders raw i seen). properName h"
  by (induction raw arbitrary: i seen)
     (simp_all add: Let_def uniqueNameLoop_proper sanitizeHeader_proper)

lemma properName_not_index: "properName h \<Longrightarrow> \<not> isArrayIndex h"
  by (cases h) (auto simp: properName_def isArrayIndex_def)

subsection \<open>Rows\<close>

lemma assign_fresh_key:
  assumes "h \<noteq> js ''__proto__''" and "\<not> isArrayIndex h" and "h \<notin> fst ` set ps"
  shows "assignProp (ps, b) h v = (ps @ [(h, v)], b)"
  using assms by (simp add: assignProp_def defineOwn_def)

lemma fill_row:
  assumes "distinct (map fst his)"
    and "\<forall>h \<in> set (map fst his). h \<noteq> js ''__proto__'' \<and> \<not> isArrayIndex h"
    and "set (map fst his) \<inter> fst ` set ps = {}"
  shows "foldl (\<lambda>obj (header, index). assignProp obj header (f index)) (ps, b) his
           = (ps @ map (\<lambda>(header, index). (header, f index)) his, b)"
  using assms
proof (induction his arbitrary: ps)
  case Nil
  show ?case by simp
next
  case (Cons p his)
  obtain h i where p: "p = (h, i)" by (cases p)
  from Cons.prems p have fresh: "h \<noteq> js ''__proto__''" "\<not> isArrayIndex h" "h \<notin> fst ` set ps"
    by auto
  have step: "assignProp (ps, b) h (f i) = (ps @ [(h, f i)], b)"
    using fresh by (rule assign_fresh_key)
  from Cons.prems p have "distinct (map fst his)"
    and "\<forall>h \<in> set (map fst his). h \<noteq> js ''__proto__'' \<and> \<not> isArrayIndex h"
    and "set (map fst his) \<inter> fst ` set (ps @ [(h, f i)]) = {}"
    by auto
  from Cons.IH [OF this] p step show ?case by simp
qed

lemma buildRow_keys:
  assumes "distinct headers"
    and "\<forall>h \<in> set headers. h \<noteq> js ''__proto__'' \<and> \<not> isArrayIndex h"
  shows "buildRow dateParse headers values =
           JObj (map (\<lambda>(header, index). (header, cellAt dateParse values index))
                   (zip headers [0 ..< length headers]))"
    and "objectKeys (buildRow dateParse headers values) = headers"
proof -
  let ?his = "zip headers [0 ..< length headers]"
  have m: "map fst ?his = headers" by simp
  have "foldl (\<lambda>obj (header, index). assignProp obj header (cellAt dateParse values index))
          ([], True) ?his
        = ([] @ map (\<lambda>(header, index). (header, cellAt dateParse values index)) ?his, True)"
    using assms by (intro fill_row) (simp_all only: m, simp_all)
  then show r: "buildRow dateParse headers values =
           JObj (map (\<lambda>(header, index). (header, cellAt dateParse values index)) ?his)"
    by (simp add: buildRow_def)
  have "map fst (map (\<lambda>(header, index). (header, cellAt dateParse values index)) ?his)
          = map fst ?his"
    by (simp add: map_idI case_prod_unfold comp_def)
  with r m show "objectKeys (buildRow dateParse headers values) = headers"
    by (simp add: objectKeys_def)
qed

lemma parseRows_rows:
  "row \<in> set (parseRows dateParse headers lines) \<Longrightarrow>
   \<exists>values. row = buildRow dateParse headers values"
  by (induction lines) (auto simp: Let_def split: if_splits)

lemma csvHeaders_distinct: "distinct (csvHeaders text)"
  using sanitizeHeaders_distinct by (simp add: csvHeaders_def)

lemma csvHeaders_not_index: "h \<in> set (csvHeaders text) \<Longrightarrow> \<not> isArrayIndex h"
  using sanitizeHeaders_proper properName_not_index by (auto simp: csvHeaders_def)

text \<open>
  Unless a header is \<open>__proto__\<close>, every row \<open>parseCSV\<close> returns has the headers as its
  keys, in header order, and at a header the row's line has no field for it has \<open>null\<close>.
\<close>

lemma parseCSV_rows_keyed_by_headers:
  assumes "js ''__proto__'' \<notin> set (csvHeaders text)"
    and "row \<in> set (parseCSV dateParse text)"
  shows "objectKeys row = csvHeaders text"
    and "\<exists>values. row = JObj (map (\<lambda>(header, index). (header, cellAt dateParse values index))
                              (zip (csvHeaders text) [0 ..< length (csvHeaders text)]))"
proof -
  from assms(2) have "row \<in> set (parseRows dateParse (csvHeaders text) (tl (csvLines text)))"
    by (simp add: parseCSV_def Let_def split: if_splits)
  then obtain vs where row: "row = buildRow dateParse (csvHeaders text) vs"
    using parseRows_rows by blast
  have ok: "\<forall>h \<in> set (csvHeaders text). h \<noteq> js ''__proto__'' \<and> \<not> isArrayIndex h"
    using assms(1) csvHeaders_not_index by auto
  from buildRow_keys(2) [OF csvHeaders_distinct ok] row
  show "objectKeys row = csvHeaders text" by simp
  from buildRow_keys(1) [OF csvHeaders_distinct ok] row
  show "\<exists>values. row = JObj (map (\<lambda>(header, index). (header, cellAt dateParse values index))
                              (zip (csvHeaders text) [0 ..< length (csvHeaders text)]))"
    by blast
qed

lemma cellAt_missing: "length values \<le> index \<Longrightarrow> cellAt dateParse values index = JNull"
  by (simp add: cellAt_def)

text \<open>
  C6. The rows of one parse have the sanitized, de-duplicated headers as keys, except
  for a header \<open>__proto__\<close>: the assignment \<open>obj['__proto__'] = val\<close> creates no key, so
  with the header line \<open>__proto__,b\<close> the row of the line \<open>1,x\<close> has the one key \<open>b\<close>.
\<close>

theorem parseCSV_proto_header_creates_no_key:
  "csvHeaders (js ''__proto__,b\<newline>1,x'') = [js ''__proto__'', js ''b''] \<and>
   parseCSV dateParse (js ''__proto__,b\<newline>1,x'') = [JObj [(js ''b'', JStr (js ''x''))]]"
  by (simp add: csv_defs cell_defs)

text \<open>A line shorter than the header line, and a line of the sample data.\<close>

lemma parseCSV_ragged_row_has_null:
  "parseCSV dateParse (js ''a,b\<newline>1'') = [JObj [(js ''a'', JNum (Finite 1)), (js ''b'', JNull)]]"
  by (simp add: csv_defs cell_defs)

lemma parseCSV_sample_row:
  "parseCSV (\<lambda>_. Some 1063756800000)
     (js ''Sl No,Date of Birth,10th % / CGPA\<newline>1,17-Sep-2003,86.80 %'')
   = [JObj [(js ''Sl_No'', JNum (Finite 1)), (js ''Date_of_Birth'', JStr (js ''2003-09-17'')),
            (js ''_10th___CGPA'', JNum (Finite 86.8))]]"
proof -
  have a: "toISODate 1063756800000 = js ''2003-09-17''" by code_simp
  show ?thesis by (simp add: csv_defs cell_defs newDate_def maxTime_def a)
qed


end
